theory Spec2Isabelle
  imports Complex_Main
begin

section \<open>JavaScript values used by the animation model\<close>

text \<open>
  A loudness reading is a JavaScript number or a missing value. Finite numbers are
  modelled by \<^typ>\<open>real\<close>; the three non-finite numbers are separate constructors.
  Every comparison the model performs on a finite reading is against an integer
  constant, which is exact on doubles as well.
\<close>

datatype number = Finite real | NaN | PosInfinity | NegInfinity

datatype jsvalue = JNum number | JUndefined | JNull

fun Number :: "jsvalue \<Rightarrow> number" where
  "Number (JNum n) = n"
| "Number JUndefined = NaN"
| "Number JNull = Finite 0"

text \<open>
  \<^verbatim>\<open>let value = Number(dbValue); if (!Number.isFinite(value)) { value = d; }\<close>
\<close>

fun finiteOr :: "real \<Rightarrow> number \<Rightarrow> real" where
  "finiteOr d (Finite v) = v"
| "finiteOr d NaN = d"
| "finiteOr d PosInfinity = d"
| "finiteOr d NegInfinity = d"

text \<open>
  A range identifier is a string; \<open>None\<close> stands for \<^verbatim>\<open>null\<close> and \<^verbatim>\<open>undefined\<close>.
  \<open>falsy r\<close> is the test \<^verbatim>\<open>!r\<close>.
\<close>

type_synonym range = "string option"

definition falsy :: "range \<Rightarrow> bool" where
  "falsy r = (case r of None \<Rightarrow> True | Some s \<Rightarrow> s = [])"

text \<open>Interpolation of a range into a template literal.\<close>

fun toStr :: "range \<Rightarrow> string" where
  "toStr None = ''null''"
| "toStr (Some s) = s"

text \<open>\<^verbatim>\<open>xs[i]\<close>: out of range reads give \<^verbatim>\<open>undefined\<close>.\<close>

definition elemAt :: "string list \<Rightarrow> int \<Rightarrow> range" where
  "elemAt xs i = (if 0 \<le> i \<and> i < int (length xs) then Some (xs ! nat i) else None)"

text \<open>\<^verbatim>\<open>xs.indexOf(r)\<close>: the first position of \<open>r\<close>, or \<open>-1\<close>.\<close>

fun indexFrom :: "int \<Rightarrow> string list \<Rightarrow> string \<Rightarrow> int" where
  "indexFrom i [] s = -1"
| "indexFrom i (x # xs) s = (if x = s then i else indexFrom (i + 1) xs s)"

definition indexOf :: "string list \<Rightarrow> range \<Rightarrow> int" where
  "indexOf xs r = (case r of None \<Rightarrow> -1 | Some s \<Rightarrow> indexFrom 0 xs s)"

section \<open>Configuration tables of the animation model\<close>

datatype playMode = forward | reverse

datatype direction = up | down | steady

record rangeSpec =
  rmin :: number
  rmax :: number
  test :: "real \<Rightarrow> bool"

record stateConfig =
  s_file :: string
  s_mode :: "playMode option"
  s_loop :: "bool option"

record transitionConfig =
  t_file :: string
  t_durationMs :: "int option"

text \<open>
  The model module exists in two copies that differ only in these tables, so the
  functions below take the tables as a parameter.
\<close>

record config =
  STATE_SEQUENCE :: "string list"
  ranges :: "string \<Rightarrow> rangeSpec option"
  files_state :: "string \<Rightarrow> stateConfig option"
  files_transition :: "string \<Rightarrow> transitionConfig option"

definition DEFAULT_TRANSITION_DURATION :: int where
  "DEFAULT_TRANSITION_DURATION = 2000"

text \<open>The tables of \<^verbatim>\<open>src/animations/model.js\<close>.\<close>

definition model_ranges :: "string \<Rightarrow> rangeSpec option" where
  "model_ranges k =
    (if k = ''S1'' then Some \<lparr>rmin = NegInfinity, rmax = Finite 75, test = (\<lambda>v. v < 75)\<rparr>
     else if k = ''S2'' then Some \<lparr>rmin = Finite 75, rmax = Finite 90, test = (\<lambda>v. v \<ge> 75 \<and> v < 90)\<rparr>
     else if k = ''S3'' then Some \<lparr>rmin = Finite 90, rmax = PosInfinity, test = (\<lambda>v. v \<ge> 90)\<rparr>
     else None)"

definition model_files_state :: "string \<Rightarrow> stateConfig option" where
  "model_files_state k =
    (if k = ''S1'' then Some \<lparr>s_file = ''./media/state_1.json'', s_mode = Some forward, s_loop = Some True\<rparr>
     else if k = ''S2'' then Some \<lparr>s_file = ''./media/state_2.json'', s_mode = Some forward, s_loop = Some True\<rparr>
     else if k = ''S3'' then Some \<lparr>s_file = ''./media/state_3.json'', s_mode = Some forward, s_loop = Some True\<rparr>
     else if k = ''SF'' then Some \<lparr>s_file = ''./media/state_final.json'', s_mode = Some forward, s_loop = Some True\<rparr>
     else None)"

definition model_files_transition :: "string \<Rightarrow> transitionConfig option" where
  "model_files_transition k =
    (if k = ''S1_S2'' then Some \<lparr>t_file = ''./media/transition_1_2.json'', t_durationMs = Some 700\<rparr>
     else if k = ''S2_S3'' then Some \<lparr>t_file = ''./media/transition_2_3.json'', t_durationMs = Some 467\<rparr>
     else None)"

definition model_js :: config where
  "model_js =
    \<lparr>STATE_SEQUENCE = [''S1'', ''S2'', ''S3'', ''SF''],
     ranges = model_ranges,
     files_state = model_files_state,
     files_transition = model_files_transition\<rparr>"

section \<open>Range classifier\<close>

text \<open>
  The loop \<^verbatim>\<open>for (const key of STATE_SEQUENCE)\<close> of \<^verbatim>\<open>classify\<close>: the first key whose
  range has a test that accepts the value. A key without an entry in \<^verbatim>\<open>ranges\<close> is
  skipped by the optional chaining.
\<close>

fun firstMatch :: "(string \<Rightarrow> rangeSpec option) \<Rightarrow> string list \<Rightarrow> real \<Rightarrow> string option" where
  "firstMatch rs [] v = None"
| "firstMatch rs (key # keys) v =
    (case rs key of
       Some r \<Rightarrow> if test r v then Some key else firstMatch rs keys v
     | None \<Rightarrow> firstMatch rs keys v)"

definition classify :: "config \<Rightarrow> jsvalue \<Rightarrow> range" where
  "classify cfg dbValue =
    (let value = finiteOr 0 (Number dbValue) in
     case firstMatch (ranges cfg) (STATE_SEQUENCE cfg) value of
       Some key \<Rightarrow> Some key
     | None \<Rightarrow> elemAt (STATE_SEQUENCE cfg) (int (length (STATE_SEQUENCE cfg)) - 1))"

definition getStateConfig :: "config \<Rightarrow> range \<Rightarrow> stateConfig option" where
  "getStateConfig cfg r = (case r of None \<Rightarrow> None | Some k \<Rightarrow> files_state cfg k)"

section \<open>Transition resolver\<close>

definition getRangeDirection :: "config \<Rightarrow> range \<Rightarrow> range \<Rightarrow> direction" where
  "getRangeDirection cfg prevRange nextRange =
    (if falsy prevRange \<or> falsy nextRange \<or> prevRange = nextRange then steady
     else
       let prevIndex = indexOf (STATE_SEQUENCE cfg) prevRange;
           nextIndex = indexOf (STATE_SEQUENCE cfg) nextRange
       in if prevIndex = -1 \<or> nextIndex = -1 then steady
          else if nextIndex > prevIndex then up
          else if nextIndex < prevIndex then down
          else steady)"

record plan =
  p_key :: string
  p_direction :: direction
  p_file :: string
  p_durationMs :: int
  p_mode :: playMode

definition resolveTransition :: "config \<Rightarrow> range \<Rightarrow> range \<Rightarrow> plan option" where
  "resolveTransition cfg prevRange nextRange =
    (let direction = getRangeDirection cfg prevRange nextRange in
     if direction = steady then None
     else
       let prevIndex = indexOf (STATE_SEQUENCE cfg) prevRange;
           nextIndex = indexOf (STATE_SEQUENCE cfg) nextRange
       in if prevIndex = -1 \<or> nextIndex = -1 then None
          else if \<bar>prevIndex - nextIndex\<bar> \<noteq> 1 then None
          else
            let (startRange, endRange) =
                  (if direction = up then (prevRange, nextRange) else (nextRange, prevRange));
                key = toStr startRange @ ''_'' @ toStr endRange
            in case files_transition cfg key of
                 None \<Rightarrow> None
               | Some base \<Rightarrow>
                   Some \<lparr>p_key = key,
                         p_direction = direction,
                         p_file = t_file base,
                         p_durationMs = (case t_durationMs base of
                                         Some d \<Rightarrow> d
                                       | None \<Rightarrow> DEFAULT_TRANSITION_DURATION),
                         p_mode = (if direction = up then forward else reverse)\<rparr>)"

text \<open>
  The loop of \<^verbatim>\<open>buildRangePath\<close>, \<^verbatim>\<open>for (let i = prevIndex; ; i += step)\<close>, has no
  bound of its own: it stops only when \<open>i\<close> meets \<open>nextIndex\<close>. \<open>None\<close> is the loop
  that never stops.
\<close>

partial_function (option) pathLoop ::
    "string list \<Rightarrow> int \<Rightarrow> int \<Rightarrow> int \<Rightarrow> range list \<Rightarrow> range list option" where
  "pathLoop seq step nextIndex i path =
    (if i = nextIndex then Some (path @ [elemAt seq i])
     else pathLoop seq step nextIndex (i + step) (path @ [elemAt seq i]))"

declare pathLoop.simps [code]

definition buildRangePath :: "config \<Rightarrow> range \<Rightarrow> range \<Rightarrow> range list option" where
  "buildRangePath cfg prevRange nextRange =
    (if falsy prevRange \<or> falsy nextRange
     then Some (if \<not> falsy nextRange then [nextRange] else [])
     else
       let prevIndex = indexOf (STATE_SEQUENCE cfg) prevRange;
           nextIndex = indexOf (STATE_SEQUENCE cfg) nextRange
       in if prevIndex = -1 \<or> nextIndex = -1 then Some [nextRange]
          else if prevIndex = nextIndex then Some [nextRange]
          else
            let step = (if nextIndex > prevIndex then 1 else -1)
            in pathLoop (STATE_SEQUENCE cfg) step nextIndex prevIndex [])"

section \<open>Sustained-state tracker\<close>

definition SF_TIMEOUT_MS :: int where
  "SF_TIMEOUT_MS = 10000"

record animationState =
  currentRange :: range
  inSF :: bool
  s3EnteredAt :: "int option"

definition animationState :: animationState where
  "animationState = \<lparr>currentRange = None, inSF = False, s3EnteredAt = None\<rparr>"

definition reset :: "animationState \<Rightarrow> animationState" where
  "reset this = this\<lparr>currentRange := None, inSF := False, s3EnteredAt := None\<rparr>"

record updateResult =
  u_range :: range
  u_transition :: "plan option"

text \<open>
  \<^verbatim>\<open>update(dbValue, now = Date.now())\<close>: the clock reading is an argument, in
  milliseconds. The result is the new tracker state and the returned object.
\<close>

definition update ::
    "config \<Rightarrow> animationState \<Rightarrow> jsvalue \<Rightarrow> int \<Rightarrow> animationState \<times> updateResult" where
  "update cfg this dbValue now =
    (let baseRange = classify cfg dbValue in
     if inSF this then
       if baseRange = Some ''S2'' then
         let this' = this\<lparr>inSF := False, s3EnteredAt := None, currentRange := Some ''S2''\<rparr>
         in case files_transition cfg ''S2_S3'' of
              Some base \<Rightarrow>
                (this',
                 \<lparr>u_range = Some ''S2'',
                  u_transition =
                    Some \<lparr>p_key = ''S2_S3'',
                          p_direction = down,
                          p_file = t_file base,
                          p_durationMs = (case t_durationMs base of
                                            Some d \<Rightarrow> d
                                          | None \<Rightarrow> DEFAULT_TRANSITION_DURATION),
                          p_mode = reverse\<rparr>\<rparr>)
            | None \<Rightarrow>
                (this',
                 \<lparr>u_range = Some ''S2'',
                  u_transition = resolveTransition cfg (Some ''S3'') (Some ''S2'')\<rparr>)
       else
         (this\<lparr>currentRange := Some ''SF''\<rparr>, \<lparr>u_range = Some ''SF'', u_transition = None\<rparr>)
     else if baseRange = Some ''S3'' then
       let entered = (case s3EnteredAt this of None \<Rightarrow> now | Some t \<Rightarrow> t) in
       if now - entered \<ge> SF_TIMEOUT_MS then
         (this\<lparr>s3EnteredAt := Some entered, inSF := True, currentRange := Some ''SF'',
               s3EnteredAt := None\<rparr>,
          \<lparr>u_range = Some ''SF'', u_transition = None\<rparr>)
       else
         (this\<lparr>s3EnteredAt := Some entered, currentRange := Some ''S3''\<rparr>,
          \<lparr>u_range = Some ''S3'',
           u_transition = resolveTransition cfg (currentRange this) (Some ''S3'')\<rparr>)
     else
       (this\<lparr>s3EnteredAt := None, currentRange := baseRange\<rparr>,
        \<lparr>u_range = baseRange,
         u_transition = resolveTransition cfg (currentRange this) baseRange\<rparr>))"

text \<open>A run of the tracker over timestamped readings, with the object returned by each call.\<close>

fun updates ::
    "config \<Rightarrow> animationState \<Rightarrow> (jsvalue \<times> int) list \<Rightarrow> animationState \<times> updateResult list" where
  "updates cfg this [] = (this, [])"
| "updates cfg this ((dbValue, now) # rest) =
    (let (this', res) = update cfg this dbValue now;
         (this'', ress) = updates cfg this' rest
     in (this'', res # ress))"

text \<open>The dwell timestamp is present only outside the final state.\<close>

definition tracker_inv :: "animationState \<Rightarrow> bool" where
  "tracker_inv s = (s3EnteredAt s \<noteq> None \<longrightarrow> \<not> inSF s)"

section \<open>Background colour mapper\<close>

record keyframe =
  dB :: real
  hex :: string

definition COLOR_KEYFRAMES :: "keyframe list" where
  "COLOR_KEYFRAMES =
    [\<lparr>dB = 76, hex = ''#a4f12c''\<rparr>,
     \<lparr>dB = 85, hex = ''#f1e22c''\<rparr>,
     \<lparr>dB = 95, hex = ''#ef8e2e''\<rparr>,
     \<lparr>dB = 105, hex = ''#ee5b2d''\<rparr>]"

record rgb =
  rgb_r :: real
  rgb_g :: real
  rgb_b :: real

text \<open>One character of the class \<^verbatim>\<open>[a-f\d]\<close> under the flag \<^verbatim>\<open>i\<close>, with its value.\<close>

definition hexDigit :: "char \<Rightarrow> nat option" where
  "hexDigit c =
    (let n = of_char c :: nat in
     if 48 \<le> n \<and> n \<le> 57 then Some (n - 48)
     else if 97 \<le> n \<and> n \<le> 102 then Some (n - 87)
     else if 65 \<le> n \<and> n \<le> 70 then Some (n - 55)
     else None)"

text \<open>\<^verbatim>\<open>parseInt(s, 16)\<close> on one two-character group of the match.\<close>

definition parseHexPair :: "char \<Rightarrow> char \<Rightarrow> real option" where
  "parseHexPair c1 c2 =
    (case (hexDigit c1, hexDigit c2) of
       (Some h, Some l) \<Rightarrow> Some (real (16 * h + l))
     | _ \<Rightarrow> None)"

text \<open>
  \<^verbatim>\<open>/^#?([a-f\d]{2})([a-f\d]{2})([a-f\d]{2})$/i.exec(hex)\<close>: an optional \<^verbatim>\<open>#\<close>, then
  exactly six hexadecimal digits; anything else gives black.
\<close>

definition hexToRgb :: "string \<Rightarrow> rgb" where
  "hexToRgb h =
    (let digits = (case h of c # rest \<Rightarrow> if c = CHR ''#'' then rest else h | [] \<Rightarrow> h) in
     case digits of
       [r1, r2, g1, g2, b1, b2] \<Rightarrow>
         (case (parseHexPair r1 r2, parseHexPair g1 g2, parseHexPair b1 b2) of
            (Some r, Some g, Some b) \<Rightarrow> \<lparr>rgb_r = r, rgb_g = g, rgb_b = b\<rparr>
          | _ \<Rightarrow> \<lparr>rgb_r = 0, rgb_g = 0, rgb_b = 0\<rparr>)
     | _ \<Rightarrow> \<lparr>rgb_r = 0, rgb_g = 0, rgb_b = 0\<rparr>)"

text \<open>\<^verbatim>\<open>Math.round\<close>: the nearest integer, a tie going up.\<close>

definition Math_round :: "real \<Rightarrow> int" where
  "Math_round x = \<lfloor>x + 1 / 2\<rfloor>"

definition digitChar :: "nat \<Rightarrow> char" where
  "digitChar d = ''0123456789abcdef'' ! d"

fun hexDigits :: "nat \<Rightarrow> string" where
  "hexDigits n = (if n < 16 then [digitChar n] else hexDigits (n div 16) @ [digitChar (n mod 16)])"

text \<open>\<^verbatim>\<open>n.toString(16)\<close> on an integer.\<close>

definition toString16 :: "int \<Rightarrow> string" where
  "toString16 n = (if n < 0 then CHR ''-'' # hexDigits (nat (- n)) else hexDigits (nat n))"

definition toHex :: "real \<Rightarrow> string" where
  "toHex v = (let h = toString16 (Math_round v) in if length h = 1 then CHR ''0'' # h else h)"

definition rgbToHex :: "rgb \<Rightarrow> string" where
  "rgbToHex c = CHR ''#'' # toHex (rgb_r c) @ toHex (rgb_g c) @ toHex (rgb_b c)"

definition lerp :: "real \<Rightarrow> real \<Rightarrow> real \<Rightarrow> real" where
  "lerp start end' factor = start + (end' - start) * factor"

definition interpolateColor :: "rgb \<Rightarrow> rgb \<Rightarrow> real \<Rightarrow> rgb" where
  "interpolateColor colorA colorB factor =
    \<lparr>rgb_r = lerp (rgb_r colorA) (rgb_r colorB) factor,
     rgb_g = lerp (rgb_g colorA) (rgb_g colorB) factor,
     rgb_b = lerp (rgb_b colorA) (rgb_b colorB) factor\<rparr>"

text \<open>
  The search loop of \<^verbatim>\<open>getBackgroundColor\<close> over adjacent keyframes; \<open>None\<close> when no
  pair brackets the value.
\<close>

fun interpolateIn :: "keyframe list \<Rightarrow> real \<Rightarrow> string option" where
  "interpolateIn (current # next # rest) v =
    (if v \<ge> dB current \<and> v < dB next then
       let range = dB next - dB current;
           position = v - dB current;
           factor = position / range;
           colorA = hexToRgb (hex current);
           colorB = hexToRgb (hex next)
       in Some (rgbToHex (interpolateColor colorA colorB factor))
     else interpolateIn (next # rest) v)"
| "interpolateIn _ v = None"

definition getBackgroundColor :: "jsvalue \<Rightarrow> string" where
  "getBackgroundColor dbValue =
    (let v = finiteOr 76 (Number dbValue) in
     if v \<le> dB (hd COLOR_KEYFRAMES) then hex (hd COLOR_KEYFRAMES)
     else if v \<ge> dB (last COLOR_KEYFRAMES) then hex (last COLOR_KEYFRAMES)
     else case interpolateIn COLOR_KEYFRAMES v of
            Some c \<Rightarrow> c
          | None \<Rightarrow> hex (hd COLOR_KEYFRAMES))"

section \<open>Animation controller\<close>

text \<open>
  \<^verbatim>\<open>onReading\<close> is an asynchronous function: it runs until its first \<^verbatim>\<open>await\<close>, and
  each later stretch, from one \<^verbatim>\<open>await\<close> to the next, runs when the scheduler resumes
  it. Readings may arrive between two stretches. A call that is suspended is a
  \<open>task\<close>: its local variables and the \<^verbatim>\<open>await\<close> it waits at. The player is the
  list of \<^verbatim>\<open>player.load\<close> calls made so far. A load that rejects is caught and
  logged by \<^verbatim>\<open>loadClip\<close> and the caller goes on as after one that succeeds, so the
  outcome of a load is not part of the state.
\<close>

record clip =
  src :: string
  autoplay :: bool
  loop :: bool
  mode :: playMode

text \<open>
  The places where a call can wait, by the line of \<^verbatim>\<open>controller.js\<close>. In
  \<^verbatim>\<open>onReading\<close>: \<open>AwaitTransitionClip\<close> is \<^verbatim>\<open>await loadClip\<close> (119),
  \<open>AwaitTransitionDelay\<close> is \<^verbatim>\<open>await delay\<close> (120), \<open>AwaitSteady\<close> is
  \<^verbatim>\<open>await playSteady\<close> (121), \<open>AwaitSequence\<close> is \<^verbatim>\<open>await playTransitionSequence\<close> (127)
  once that function has returned. Inside \<^verbatim>\<open>playTransitionSequence\<close>: \<open>SeqAwaitSingle\<close> is
  \<^verbatim>\<open>await playSteady\<close> for a path of one range (53), \<open>SeqAwaitClip i\<close> and
  \<open>SeqAwaitDelay i\<close> are \<^verbatim>\<open>await loadClip\<close> (70) and \<^verbatim>\<open>await delay\<close> (80) in round \<open>i\<close> of
  the loop, \<open>SeqAwaitSteady\<close> is the final \<^verbatim>\<open>await playSteady\<close> (83). Time is not
  measured: a call that waits for a delay or a load is resumed whenever the scheduler
  chooses.
\<close>

datatype cont =
    AwaitTransitionClip
  | AwaitTransitionDelay
  | AwaitSteady
  | AwaitSequence
  | SeqAwaitSingle
  | SeqAwaitClip nat
  | SeqAwaitDelay nat
  | SeqAwaitSteady

record task =
  sequenceId :: nat
  nextRange :: range
  path :: "range list"
  waiting :: cont

record controller =
  previousRange :: range
  sequenceCounter :: nat
  tracker :: animationState
  playerReady :: bool
  loads :: "clip list"
  hasBody :: bool
  backgroundColor :: "string option"
  pending :: "task list"

text \<open>The module state when \<^verbatim>\<open>controller.js\<close> has been loaded.\<close>

definition controller :: "config \<Rightarrow> bool \<Rightarrow> bool \<Rightarrow> controller" where
  "controller cfg ready body =
    \<lparr>previousRange = classify cfg (JNum (Finite 0)),
     sequenceCounter = 0,
     tracker = animationState,
     playerReady = ready,
     loads = [],
     hasBody = body,
     backgroundColor = None,
     pending = []\<rparr>"

definition isPlayerReady :: "controller \<Rightarrow> bool" where
  "isPlayerReady c = playerReady c"

definition loadClip :: "controller \<Rightarrow> string \<Rightarrow> playMode \<Rightarrow> bool \<Rightarrow> controller" where
  "loadClip c src' mode' loop' =
    (if \<not> isPlayerReady c \<or> src' = [] then c
     else c\<lparr>loads := loads c @ [\<lparr>src = src', autoplay = True, loop = loop', mode = mode'\<rparr>]\<rparr>)"

definition playSteady :: "config \<Rightarrow> controller \<Rightarrow> range \<Rightarrow> nat \<Rightarrow> controller" where
  "playSteady cfg c r sequenceId' =
    (if sequenceId' \<noteq> sequenceCounter c then c
     else case getStateConfig cfg r of
            None \<Rightarrow> c
          | Some stateConfig \<Rightarrow>
              loadClip c (s_file stateConfig)
                (case s_mode stateConfig of Some m \<Rightarrow> m | None \<Rightarrow> forward)
                (case s_loop stateConfig of Some l \<Rightarrow> l | None \<Rightarrow> True))"

text \<open>\<^verbatim>\<open>path[i]\<close>\<close>

definition pathAt :: "range list \<Rightarrow> nat \<Rightarrow> range" where
  "pathAt p i = (if i < length p then p ! i else None)"

text \<open>
  The loop of \<^verbatim>\<open>playTransitionSequence\<close> from index \<open>i\<close>, up to the next \<^verbatim>\<open>await\<close>
  (\<open>Some\<close> of where it waits) or to the function's return (\<open>None\<close>).
\<close>

function seqLoop ::
    "config \<Rightarrow> range list \<Rightarrow> nat \<Rightarrow> nat \<Rightarrow> controller \<Rightarrow> controller \<times> cont option" where
  "seqLoop cfg p sequenceId' i c =
    (if i < length p - 1 then
       if sequenceId' \<noteq> sequenceCounter c then (c, None)
       else case resolveTransition cfg (pathAt p i) (pathAt p (i + 1)) of
              None \<Rightarrow> seqLoop cfg p sequenceId' (i + 1) c
            | Some transition \<Rightarrow>
                (loadClip c (p_file transition) (p_mode transition) False, Some (SeqAwaitClip i))
     else (playSteady cfg c (pathAt p (length p - 1)) sequenceId', Some SeqAwaitSteady))"
  by pat_completeness auto
termination
  by (relation "measure (\<lambda>(cfg, p, sequenceId', i, c). length p - 1 - i)") auto

declare seqLoop.simps [simp del]

definition playTransitionSequence ::
    "config \<Rightarrow> range list \<Rightarrow> nat \<Rightarrow> controller \<Rightarrow> controller \<times> cont option" where
  "playTransitionSequence cfg p sequenceId' c =
    (if length p = 0 then (c, None)
     else if length p = 1 then (playSteady cfg c (pathAt p 0) sequenceId', Some SeqAwaitSingle)
     else seqLoop cfg p sequenceId' 0 c)"

definition updateBackgroundColor :: "controller \<Rightarrow> jsvalue \<Rightarrow> controller" where
  "updateBackgroundColor c dbValue =
    (let color = getBackgroundColor dbValue in
     if hasBody c then c\<lparr>backgroundColor := Some color\<rparr> else c)"

definition suspend :: "controller \<Rightarrow> task \<Rightarrow> controller" where
  "suspend c t = c\<lparr>pending := pending c @ [t]\<rparr>"

text \<open>
  \<^verbatim>\<open>onReading\<close> up to its first \<^verbatim>\<open>await\<close>. \<open>now\<close> is the value of \<^verbatim>\<open>Date.now()\<close> that
  \<^verbatim>\<open>animationState.update\<close> reads.
\<close>

definition onReading :: "config \<Rightarrow> jsvalue \<Rightarrow> int \<Rightarrow> controller \<Rightarrow> controller" where
  "onReading cfg dbValue now c0 =
    (let c1 = updateBackgroundColor c0 dbValue in
     if \<not> isPlayerReady c1 then c1
     else
       let (tracker', res) = update cfg (tracker c1) dbValue now;
           c2 = c1\<lparr>tracker := tracker'\<rparr>;
           nextRange' = u_range res;
           transition = u_transition res
       in if falsy nextRange' then c2
          else if nextRange' = previousRange c2 \<and> transition = None then c2
          else
            let oldPrev = previousRange c2;
                sequenceId' = sequenceCounter c2 + 1;
                c3 = c2\<lparr>sequenceCounter := sequenceId'\<rparr>
            in case transition of
                 Some tr \<Rightarrow>
                   suspend (loadClip c3 (p_file tr) (p_mode tr) False)
                     \<lparr>sequenceId = sequenceId', nextRange = nextRange', path = [],
                      waiting = AwaitTransitionClip\<rparr>
               | None \<Rightarrow>
                   (case buildRangePath cfg oldPrev nextRange' of
                      None \<Rightarrow> c3
                    | Some p \<Rightarrow>
                        (case playTransitionSequence cfg p sequenceId' c3 of
                           (c4, Some k) \<Rightarrow>
                             suspend c4
                               \<lparr>sequenceId = sequenceId', nextRange = nextRange', path = p,
                                waiting = k\<rparr>
                         | (c4, None) \<Rightarrow>
                             suspend c4
                               \<lparr>sequenceId = sequenceId', nextRange = nextRange', path = p,
                                waiting = AwaitSequence\<rparr>)))"

text \<open>
  One stretch of \<^verbatim>\<open>playTransitionSequence\<close>, from the \<^verbatim>\<open>await\<close> inside it that the call
  waits at to its next \<^verbatim>\<open>await\<close> (\<open>Some\<close>) or to its return (\<open>None\<close>).
\<close>

definition resumeSequence :: "config \<Rightarrow> task \<Rightarrow> controller \<Rightarrow> controller \<times> cont option" where
  "resumeSequence cfg t c =
    (case waiting t of
       SeqAwaitSingle \<Rightarrow> (c, None)
     | SeqAwaitClip i \<Rightarrow>
         if sequenceId t \<noteq> sequenceCounter c then (c, None)
         else (c, Some (SeqAwaitDelay i))
     | SeqAwaitDelay i \<Rightarrow> seqLoop cfg (path t) (sequenceId t) (i + 1) c
     | SeqAwaitSteady \<Rightarrow> (c, None)
     | _ \<Rightarrow> (c, None))"

text \<open>
  One stretch of a suspended call of \<^verbatim>\<open>onReading\<close>, from the \<^verbatim>\<open>await\<close> it waits at to
  the next one (\<open>Some\<close>) or to the end of \<^verbatim>\<open>onReading\<close> (\<open>None\<close>). When
  \<^verbatim>\<open>playTransitionSequence\<close> returns, the \<^verbatim>\<open>await\<close> on it in \<^verbatim>\<open>onReading\<close> is next.
\<close>

definition resumeTask :: "config \<Rightarrow> task \<Rightarrow> controller \<Rightarrow> controller \<times> cont option" where
  "resumeTask cfg t c =
    (case waiting t of
       AwaitTransitionClip \<Rightarrow> (c, Some AwaitTransitionDelay)
     | AwaitTransitionDelay \<Rightarrow> (playSteady cfg c (nextRange t) (sequenceId t), Some AwaitSteady)
     | AwaitSteady \<Rightarrow> (c\<lparr>previousRange := nextRange t\<rparr>, None)
     | AwaitSequence \<Rightarrow> (c\<lparr>previousRange := nextRange t\<rparr>, None)
     | _ \<Rightarrow>
         (case resumeSequence cfg t c of
            (c', Some k) \<Rightarrow> (c', Some k)
          | (c', None) \<Rightarrow> (c', Some AwaitSequence)))"

text \<open>The scheduler resumes the \<open>k\<close>-th suspended call.\<close>

definition resume :: "config \<Rightarrow> nat \<Rightarrow> controller \<Rightarrow> controller" where
  "resume cfg k c =
    (if k < length (pending c) then
       let t = pending c ! k in
       case resumeTask cfg t c of
         (c', Some w) \<Rightarrow> c'\<lparr>pending := (pending c)[k := t\<lparr>waiting := w\<rparr>]\<rparr>
       | (c', None) \<Rightarrow> c'\<lparr>pending := take k (pending c) @ drop (k + 1) (pending c)\<rparr>
     else c)"

datatype event = Reading jsvalue int | Resume nat

fun step :: "config \<Rightarrow> controller \<Rightarrow> event \<Rightarrow> controller" where
  "step cfg c (Reading dbValue now) = onReading cfg dbValue now c"
| "step cfg c (Resume k) = resume cfg k c"

definition run :: "config \<Rightarrow> controller \<Rightarrow> event list \<Rightarrow> controller" where
  "run cfg c evs = foldl (step cfg) c evs"

subsection \<open>The controller without the tracker\<close>

text \<open>
  The other copy of the controller calls the classifier directly, on the other copy
  of the model, whose tables have five ranges. Its \<^verbatim>\<open>loadClip\<close>, \<^verbatim>\<open>playSteady\<close> and
  \<^verbatim>\<open>playTransitionSequence\<close> are the same text as above. It assigns \<open>previousRange\<close>
  before its only \<^verbatim>\<open>await\<close>, and nothing follows that \<^verbatim>\<open>await\<close>.
\<close>

definition plain_ranges :: "string \<Rightarrow> rangeSpec option" where
  "plain_ranges k =
    (if k = ''S1'' then Some \<lparr>rmin = NegInfinity, rmax = Finite 70, test = (\<lambda>v. v < 70)\<rparr>
     else if k = ''S2'' then Some \<lparr>rmin = Finite 70, rmax = Finite 85, test = (\<lambda>v. v \<ge> 70 \<and> v < 85)\<rparr>
     else if k = ''S3'' then Some \<lparr>rmin = Finite 85, rmax = Finite 100, test = (\<lambda>v. v \<ge> 85 \<and> v < 100)\<rparr>
     else if k = ''S4'' then Some \<lparr>rmin = Finite 100, rmax = Finite 120, test = (\<lambda>v. v \<ge> 100 \<and> v < 120)\<rparr>
     else if k = ''S5'' then Some \<lparr>rmin = Finite 120, rmax = PosInfinity, test = (\<lambda>v. v \<ge> 120)\<rparr>
     else None)"

definition plain_files_state :: "string \<Rightarrow> stateConfig option" where
  "plain_files_state k =
    (if k = ''S1'' then Some \<lparr>s_file = ''./media/state_1.json'', s_mode = Some forward, s_loop = Some True\<rparr>
     else if k = ''S2'' then Some \<lparr>s_file = ''./media/state_2.json'', s_mode = Some forward, s_loop = Some True\<rparr>
     else if k = ''S3'' then Some \<lparr>s_file = ''./media/state_3.json'', s_mode = Some forward, s_loop = Some True\<rparr>
     else if k = ''S4'' then Some \<lparr>s_file = ''./media/state_4.json'', s_mode = Some forward, s_loop = Some True\<rparr>
     else if k = ''S5'' then Some \<lparr>s_file = ''./media/state_5.json'', s_mode = Some forward, s_loop = Some True\<rparr>
     else None)"

definition plain_files_transition :: "string \<Rightarrow> transitionConfig option" where
  "plain_files_transition k =
    (if k = ''S1_S2'' then Some \<lparr>t_file = ''./media/transition_1_2.json'', t_durationMs = Some 2000\<rparr>
     else if k = ''S2_S3'' then Some \<lparr>t_file = ''./media/transition_2_3.json'', t_durationMs = Some 2000\<rparr>
     else if k = ''S3_S4'' then Some \<lparr>t_file = ''./media/transition_3_4.json'', t_durationMs = Some 2000\<rparr>
     else if k = ''S4_S5'' then Some \<lparr>t_file = ''./media/transition_4_5.json'', t_durationMs = Some 2000\<rparr>
     else None)"

definition model_plain_js :: config where
  "model_plain_js =
    \<lparr>STATE_SEQUENCE = [''S1'', ''S2'', ''S3'', ''S4'', ''S5''],
     ranges = plain_ranges,
     files_state = plain_files_state,
     files_transition = plain_files_transition\<rparr>"

definition onReading_plain :: "config \<Rightarrow> jsvalue \<Rightarrow> controller \<Rightarrow> controller" where
  "onReading_plain cfg dbValue c0 =
    (if \<not> isPlayerReady c0 then c0
     else
       let normalizedValue = finiteOr 0 (Number dbValue);
           nextRange' = classify cfg (JNum (Finite normalizedValue))
       in if falsy nextRange' then c0
          else if nextRange' = previousRange c0 then c0
          else
            (case buildRangePath cfg (previousRange c0) nextRange' of
               None \<Rightarrow> c0
             | Some p \<Rightarrow>
                 let c1 = c0\<lparr>previousRange := nextRange'\<rparr>;
                     sequenceId' = sequenceCounter c1 + 1;
                     c2 = c1\<lparr>sequenceCounter := sequenceId'\<rparr>
                 in case playTransitionSequence cfg p sequenceId' c2 of
                      (c3, Some k) \<Rightarrow>
                        suspend c3
                          \<lparr>sequenceId = sequenceId', nextRange = nextRange', path = p,
                           waiting = k\<rparr>
                    | (c3, None) \<Rightarrow>
                        suspend c3
                          \<lparr>sequenceId = sequenceId', nextRange = nextRange', path = p,
                           waiting = AwaitSequence\<rparr>))"

definition resumeTask_plain :: "config \<Rightarrow> task \<Rightarrow> controller \<Rightarrow> controller \<times> cont option" where
  "resumeTask_plain cfg t c =
    (case waiting t of
       AwaitSequence \<Rightarrow> (c, None)
     | _ \<Rightarrow>
         (case resumeSequence cfg t c of
            (c', Some k) \<Rightarrow> (c', Some k)
          | (c', None) \<Rightarrow> (c', Some AwaitSequence)))"

definition resume_plain :: "config \<Rightarrow> nat \<Rightarrow> controller \<Rightarrow> controller" where
  "resume_plain cfg k c =
    (if k < length (pending c) then
       let t = pending c ! k in
       case resumeTask_plain cfg t c of
         (c', Some w) \<Rightarrow> c'\<lparr>pending := (pending c)[k := t\<lparr>waiting := w\<rparr>]\<rparr>
       | (c', None) \<Rightarrow> c'\<lparr>pending := take k (pending c) @ drop (k + 1) (pending c)\<rparr>
     else c)"

text \<open>
  The scheduler resumes the oldest suspended call until none is left, for at most
  \<open>n\<close> stretches.
\<close>

fun drain :: "config \<Rightarrow> nat \<Rightarrow> controller \<Rightarrow> controller" where
  "drain cfg 0 c = c"
| "drain cfg (Suc n) c = (if pending c = [] then c else drain cfg n (resume cfg 0 c))"

text \<open>
  The controller has settled: it shows the tracker's range and no call is suspended.
\<close>

definition settled :: "controller \<Rightarrow> bool" where
  "settled c = (previousRange c = currentRange (tracker c) \<and> pending c = [])"

text \<open>
  A reading that asks for no change of range: outside the final state it is classified
  into the tracker's current range; in the final state it is not the exit range.
\<close>

definition holdsRange :: "config \<Rightarrow> animationState \<Rightarrow> jsvalue \<Rightarrow> bool" where
  "holdsRange cfg t dbValue =
    (if inSF t then currentRange t = Some ''SF'' \<and> classify cfg dbValue \<noteq> Some ''S2''
     else classify cfg dbValue = currentRange t)"

text \<open>
  Two sessions used as examples below. In the first the page has read 60 and shows
  \<open>S1\<close>. In the second it has read 60, 80 and 95, each sequence run to its end,
  and shows \<open>S3\<close>, the dwell timer running since time 2.
\<close>

definition settled_S1 :: controller where
  "settled_S1 = run model_js (controller model_js True True) [Reading (JNum (Finite 60)) 0]"

definition settled_S3 :: controller where
  "settled_S3 =
    run model_js (controller model_js True True)
      [Reading (JNum (Finite 60)) 0,
       Reading (JNum (Finite 80)) 1, Resume 0, Resume 0, Resume 0,
       Reading (JNum (Finite 95)) 2, Resume 0, Resume 0, Resume 0]"

section \<open>Properties of the classifier\<close>

lemma model_js_sel [simp]:
  "STATE_SEQUENCE model_js = [''S1'', ''S2'', ''S3'', ''SF'']"
  "ranges model_js = model_ranges"
  "files_state model_js = model_files_state"
  "files_transition model_js = model_files_transition"
  by (simp_all add: model_js_def)

lemma firstMatch_None:
  "(\<forall>k\<in>set keys. \<forall>r. rs k = Some r \<longrightarrow> \<not> test r v) \<Longrightarrow> firstMatch rs keys v = None"
  by (induction keys) (auto split: option.splits)

lemma elemAt_last: "xs \<noteq> [] \<Longrightarrow> elemAt xs (int (length xs) - 1) = Some (last xs)"
  by (simp add: elemAt_def last_conv_nth nat_diff_distrib')

lemma classify_model:
  "classify model_js x =
     Some (if finiteOr 0 (Number x) < 75 then ''S1''
           else if finiteOr 0 (Number x) < 90 then ''S2'' else ''S3'')"
  by (simp add: classify_def model_ranges_def Let_def)

lemma model_ranges_cases:
  "model_ranges k = Some r \<Longrightarrow>
     (k = ''S1'' \<and> test r = (\<lambda>v. v < 75)) \<or>
     (k = ''S2'' \<and> test r = (\<lambda>v. v \<ge> 75 \<and> v < 90)) \<or>
     (k = ''S3'' \<and> test r = (\<lambda>v. v \<ge> 90))"
  by (auto simp: model_ranges_def split: if_splits)

lemma model_ranges_test:
  "model_ranges k = Some r \<Longrightarrow>
     test r v = (k = (if v < 75 then ''S1'' else if v < 90 then ''S2'' else ''S3''))"
  by (auto dest!: model_ranges_cases)

lemma model_ranges_ex:
  "\<exists>r. model_ranges (if v < 75 then ''S1'' else if v < 90 then ''S2'' else ''S3'') = Some r
       \<and> test r v"
  by (simp add: model_ranges_def)

lemma partition_model: "\<exists>!k. \<exists>r. model_ranges k = Some r \<and> test r v"
proof (rule ex1I)
  show "\<exists>r. model_ranges (if v < 75 then ''S1'' else if v < 90 then ''S2'' else ''S3'') = Some r
          \<and> test r v"
    by (rule model_ranges_ex)
next
  fix k assume "\<exists>r. model_ranges k = Some r \<and> test r v"
  then show "k = (if v < 75 then ''S1'' else if v < 90 then ''S2'' else ''S3'')"
    using model_ranges_test by blast
qed

text \<open>
  Claim C3. \<^verbatim>\<open>classify\<close> is a total function of its input. On the tables of
  \<^verbatim>\<open>model.js\<close> its result is determined by the value \<open>v\<close> it tests (the input, or 0 when
  the input is not a finite number): \<open>S1\<close> for \<open>v < 75\<close>, \<open>S2\<close> for \<open>75 \<le> v < 90\<close>, \<open>S3\<close> for
  \<open>v \<ge> 90\<close>. For every real \<open>v\<close> exactly one range has a test that accepts \<open>v\<close>, and
  \<open>v\<close> is classified into a range exactly when that range's test accepts it.
  \<^verbatim>\<open>NaN\<close>, both infinities and a missing input are classified as 0 is. Whatever the
  tables, when no test of a listed range accepts the value, the result is the last
  element of the state order.
\<close>

theorem classify_total_partition:
  "classify model_js x =
     Some (if finiteOr 0 (Number x) < 75 then ''S1''
           else if finiteOr 0 (Number x) < 90 then ''S2'' else ''S3'')
   \<and> (\<exists>!k. \<exists>r. ranges model_js k = Some r \<and> test r v)
   \<and> (\<forall>k r. ranges model_js k = Some r \<longrightarrow>
         (classify model_js (JNum (Finite v)) = Some k \<longleftrightarrow> test r v))
   \<and> classify cfg (JNum NaN) = classify cfg (JNum (Finite 0))
   \<and> classify cfg (JNum PosInfinity) = classify cfg (JNum (Finite 0))
   \<and> classify cfg (JNum NegInfinity) = classify cfg (JNum (Finite 0))
   \<and> classify cfg JUndefined = classify cfg (JNum (Finite 0))
   \<and> ((\<forall>k\<in>set (STATE_SEQUENCE cfg). \<forall>r. ranges cfg k = Some r \<longrightarrow>
           \<not> test r (finiteOr 0 (Number x))) \<longrightarrow>
        STATE_SEQUENCE cfg \<noteq> [] \<longrightarrow>
        classify cfg x = Some (last (STATE_SEQUENCE cfg)))"
proof -
  have fallback: "classify cfg x = Some (last (STATE_SEQUENCE cfg))"
    if "\<forall>k\<in>set (STATE_SEQUENCE cfg). \<forall>r. ranges cfg k = Some r \<longrightarrow>
           \<not> test r (finiteOr 0 (Number x))" and "STATE_SEQUENCE cfg \<noteq> []"
    using firstMatch_None [OF that(1)] that(2) by (simp add: classify_def elemAt_last)
  have by_test: "classify model_js (JNum (Finite v)) = Some k \<longleftrightarrow> test r v"
    if "ranges model_js k = Some r" for k r
    using that by (auto simp: classify_model model_ranges_test)
  show ?thesis
    using fallback by_test partition_model [of v]
    by (simp add: classify_model) (simp add: classify_def)
qed

theorem classify_total_partition_witness:
  "classify model_js (JNum (Finite 80)) = Some ''S2''
   \<and> classify (model_js\<lparr>ranges := \<lambda>k. None\<rparr>) (JNum (Finite 80)) = Some ''SF''"
  using classify_total_partition [of "JNum (Finite 80)" 80 "model_js\<lparr>ranges := \<lambda>k. None\<rparr>"]
  by simp

text \<open>
  Claim C10. On the tables of \<^verbatim>\<open>model.js\<close>, \<^verbatim>\<open>classify\<close> never returns \<open>SF\<close>: the
  search over the state order always finds a range, so the fallback to the last
  element of the order, which is \<open>SF\<close>, is never taken, and the result is one of \<open>S1\<close>,
  \<open>S2\<close>, \<open>S3\<close>.
\<close>

theorem classify_never_SF:
  "classify model_js x \<noteq> Some ''SF''
   \<and> (classify model_js x = Some ''S1'' \<or> classify model_js x = Some ''S2''
        \<or> classify model_js x = Some ''S3'')
   \<and> firstMatch (ranges model_js) (STATE_SEQUENCE model_js) (finiteOr 0 (Number x)) \<noteq> None
   \<and> last (STATE_SEQUENCE model_js) = ''SF''"
  by (simp add: classify_model model_ranges_def)

section \<open>Properties of the transition resolver\<close>

lemma getRangeDirection_same: "getRangeDirection cfg r r = steady"
  by (simp add: getRangeDirection_def)

lemma resolveTransition_same: "resolveTransition cfg r r = None"
  by (simp add: resolveTransition_def getRangeDirection_same)

lemma resolveTransition_unknown:
  "indexOf (STATE_SEQUENCE cfg) a = -1 \<or> indexOf (STATE_SEQUENCE cfg) b = -1 \<Longrightarrow>
     resolveTransition cfg a b = None"
  by (auto simp: resolveTransition_def Let_def)

lemma resolveTransition_far:
  "\<bar>indexOf (STATE_SEQUENCE cfg) a - indexOf (STATE_SEQUENCE cfg) b\<bar> \<noteq> 1 \<Longrightarrow>
     resolveTransition cfg a b = None"
  by (auto simp: resolveTransition_def Let_def)

lemma resolveTransition_up:
  assumes "\<not> falsy a" "\<not> falsy b" "0 \<le> indexOf (STATE_SEQUENCE cfg) a"
    and "indexOf (STATE_SEQUENCE cfg) b = indexOf (STATE_SEQUENCE cfg) a + 1"
    and "files_transition cfg (toStr a @ ''_'' @ toStr b) = Some base"
  shows "resolveTransition cfg a b =
     Some \<lparr>p_key = toStr a @ ''_'' @ toStr b, p_direction = up, p_file = t_file base,
           p_durationMs = (case t_durationMs base of Some d \<Rightarrow> d | None \<Rightarrow> 2000),
           p_mode = forward\<rparr>"
proof -
  have "a \<noteq> b" using assms(4) by auto
  then have "getRangeDirection cfg a b = up"
    using assms by (simp add: getRangeDirection_def Let_def)
  then show ?thesis
    using assms by (simp add: resolveTransition_def Let_def DEFAULT_TRANSITION_DURATION_def split: option.splits)
qed

lemma resolveTransition_down:
  assumes "\<not> falsy a" "\<not> falsy b" "0 \<le> indexOf (STATE_SEQUENCE cfg) a"
    and "indexOf (STATE_SEQUENCE cfg) b = indexOf (STATE_SEQUENCE cfg) a + 1"
    and "files_transition cfg (toStr a @ ''_'' @ toStr b) = Some base"
  shows "resolveTransition cfg b a =
     Some \<lparr>p_key = toStr a @ ''_'' @ toStr b, p_direction = down, p_file = t_file base,
           p_durationMs = (case t_durationMs base of Some d \<Rightarrow> d | None \<Rightarrow> 2000),
           p_mode = reverse\<rparr>"
proof -
  have "a \<noteq> b" using assms(4) by auto
  then have "getRangeDirection cfg b a = down"
    using assms by (simp add: getRangeDirection_def Let_def)
  then show ?thesis
    using assms by (simp add: resolveTransition_def Let_def DEFAULT_TRANSITION_DURATION_def split: option.splits)
qed

text \<open>
  Claim C4. Whatever the tables, \<^verbatim>\<open>resolveTransition(prev, next)\<close> is \<^verbatim>\<open>null\<close> when the two
  ranges are equal, when either is not in the state order, and when their positions
  differ by anything but 1. For two ranges \<open>a\<close>, \<open>b\<close> at consecutive positions, \<open>a\<close>
  first, with a transition descriptor under the key \<open>a_b\<close>, the plan for \<open>a\<close> to \<open>b\<close> and
  the plan for \<open>b\<close> to \<open>a\<close> both carry that key, the descriptor's file and its duration
  (2000 when the descriptor has none); the first has mode forward, the second mode
  reverse.
\<close>

theorem resolveTransition_spec:
  "resolveTransition cfg r r = None
   \<and> (indexOf (STATE_SEQUENCE cfg) a = -1 \<or> indexOf (STATE_SEQUENCE cfg) b = -1 \<longrightarrow>
        resolveTransition cfg a b = None)
   \<and> (\<bar>indexOf (STATE_SEQUENCE cfg) a - indexOf (STATE_SEQUENCE cfg) b\<bar> \<noteq> 1 \<longrightarrow>
        resolveTransition cfg a b = None)
   \<and> (\<not> falsy a \<and> \<not> falsy b \<and> 0 \<le> indexOf (STATE_SEQUENCE cfg) a
        \<and> indexOf (STATE_SEQUENCE cfg) b = indexOf (STATE_SEQUENCE cfg) a + 1
        \<and> files_transition cfg (toStr a @ ''_'' @ toStr b) = Some base \<longrightarrow>
        resolveTransition cfg a b =
          Some \<lparr>p_key = toStr a @ ''_'' @ toStr b, p_direction = up, p_file = t_file base,
                p_durationMs = (case t_durationMs base of Some d \<Rightarrow> d | None \<Rightarrow> 2000),
                p_mode = forward\<rparr>
        \<and> resolveTransition cfg b a =
          Some \<lparr>p_key = toStr a @ ''_'' @ toStr b, p_direction = down, p_file = t_file base,
                p_durationMs = (case t_durationMs base of Some d \<Rightarrow> d | None \<Rightarrow> 2000),
                p_mode = reverse\<rparr>)"
  using resolveTransition_same resolveTransition_unknown resolveTransition_far
    resolveTransition_up resolveTransition_down
  by (intro conjI impI) blast+


lemma model_plain_js_sel [simp]:
  "STATE_SEQUENCE model_plain_js = [''S1'', ''S2'', ''S3'', ''S4'', ''S5'']"
  "ranges model_plain_js = plain_ranges"
  "files_state model_plain_js = plain_files_state"
  "files_transition model_plain_js = plain_files_transition"
  by (simp_all add: model_plain_js_def)

theorem resolveTransition_spec_witness:
  "resolveTransition model_js (Some ''S2'') (Some ''S3'') =
     Some \<lparr>p_key = ''S2_S3'', p_direction = up, p_file = ''./media/transition_2_3.json'',
           p_durationMs = 467, p_mode = forward\<rparr>
   \<and> resolveTransition model_js (Some ''S3'') (Some ''S2'') =
     Some \<lparr>p_key = ''S2_S3'', p_direction = down, p_file = ''./media/transition_2_3.json'',
           p_durationMs = 467, p_mode = reverse\<rparr>
   \<and> resolveTransition model_js (Some ''S1'') (Some ''S3'') = None
   \<and> resolveTransition model_js (Some ''S1'') (Some ''S9'') = None
   \<and> resolveTransition model_plain_js (Some ''S5'') (Some ''S4'') =
     Some \<lparr>p_key = ''S4_S5'', p_direction = down, p_file = ''./media/transition_4_5.json'',
           p_durationMs = 2000, p_mode = reverse\<rparr>
   \<and> resolveTransition
        (model_js\<lparr>files_transition :=
            (\<lambda>k. if k = ''S3_SF'' then Some \<lparr>t_file = ''x.json'', t_durationMs = None\<rparr> else None)\<rparr>)
        (Some ''S3'') (Some ''SF'') =
     Some \<lparr>p_key = ''S3_SF'', p_direction = up, p_file = ''x.json'',
           p_durationMs = 2000, p_mode = forward\<rparr>"
  using resolveTransition_spec [of model_js "Some ''S2''" "Some ''S2''" "Some ''S3''"
      "\<lparr>t_file = ''./media/transition_2_3.json'', t_durationMs = Some 467\<rparr>"]
    resolveTransition_spec [of model_js "Some ''S2''" "Some ''S1''" "Some ''S3''"]
    resolveTransition_spec [of model_js "Some ''S2''" "Some ''S1''" "Some ''S9''"]
    resolveTransition_spec [of model_plain_js "Some ''S2''" "Some ''S4''" "Some ''S5''"
      "\<lparr>t_file = ''./media/transition_4_5.json'', t_durationMs = Some 2000\<rparr>"]
    resolveTransition_spec [of "model_js\<lparr>files_transition :=
            (\<lambda>k. if k = ''S3_SF'' then Some \<lparr>t_file = ''x.json'', t_durationMs = None\<rparr> else None)\<rparr>"
      "Some ''S2''" "Some ''S3''" "Some ''SF''" "\<lparr>t_file = ''x.json'', t_durationMs = None\<rparr>"]
  by (simp add: indexOf_def falsy_def model_files_transition_def plain_files_transition_def)

section \<open>Properties of the range path\<close>

lemma indexFrom_bounds:
  "indexFrom i xs s \<noteq> -1 \<Longrightarrow> 0 \<le> i \<Longrightarrow>
     i \<le> indexFrom i xs s \<and> indexFrom i xs s < i + int (length xs)
     \<and> xs ! nat (indexFrom i xs s - i) = s"
proof (induction xs arbitrary: i)
  case Nil
  then show ?case by simp
next
  case (Cons x xs)
  show ?case
  proof (cases "x = s")
    case True
    then show ?thesis by simp
  next
    case False
    with Cons.prems have ne: "indexFrom (i + 1) xs s \<noteq> -1" by simp
    from Cons.IH [OF ne] Cons.prems(2)
    have ih: "i + 1 \<le> indexFrom (i + 1) xs s"
      "indexFrom (i + 1) xs s < i + 1 + int (length xs)"
      "xs ! nat (indexFrom (i + 1) xs s - (i + 1)) = s" by auto
    have "nat (indexFrom (i + 1) xs s - i) = Suc (nat (indexFrom (i + 1) xs s - (i + 1)))"
      using ih(1) by linarith
    with ih False show ?thesis by simp
  qed
qed

lemma indexFrom_notin: "0 \<le> i \<Longrightarrow> (indexFrom i xs s = -1) = (s \<notin> set xs)"
  by (induction xs arbitrary: i) auto

lemma indexFrom_nth:
  "distinct xs \<Longrightarrow> k < length xs \<Longrightarrow> indexFrom i xs (xs ! k) = i + int k"
proof (induction xs arbitrary: i k)
  case Nil
  then show ?case by simp
next
  case (Cons x xs)
  show ?case
  proof (cases k)
    case 0
    then show ?thesis by simp
  next
    case (Suc j)
    with Cons.prems have "xs ! j \<noteq> x" "j < length xs" "distinct xs" by auto
    with Cons.IH [of j "i + 1"] Suc show ?thesis by auto
  qed
qed

lemma indexOf_elemAt:
  "distinct xs \<Longrightarrow> 0 \<le> i \<Longrightarrow> i < int (length xs) \<Longrightarrow> indexOf xs (elemAt xs i) = i"
  by (simp add: indexOf_def elemAt_def indexFrom_nth)

lemma elemAt_indexOf:
  "s \<in> set xs \<Longrightarrow> elemAt xs (indexOf xs (Some s)) = Some s
     \<and> 0 \<le> indexOf xs (Some s) \<and> indexOf xs (Some s) < int (length xs)"
  using indexFrom_bounds [of 0 xs s] indexFrom_notin [of 0 xs s]
  by (simp add: indexOf_def elemAt_def)

lemma indexOf_unknown: "(indexOf xs r = -1) = (r \<notin> Some ` set xs)"
  using indexFrom_notin [of 0 xs] by (cases r) (auto simp: indexOf_def)

lemma pathLoop_walk:
  "stp \<noteq> 0 \<Longrightarrow> nextIndex = i + stp * int d \<Longrightarrow>
     pathLoop seq stp nextIndex i p =
       Some (p @ map (\<lambda>k. elemAt seq (i + stp * int k)) [0..<Suc d])"
proof (induction d arbitrary: i p)
  case 0
  then show ?case by (subst pathLoop.simps) simp
next
  case (Suc d)
  have ne: "i \<noteq> nextIndex" using Suc.prems by simp
  have next': "nextIndex = (i + stp) + stp * int d"
    using Suc.prems(2) by (simp add: algebra_simps)
  have shift: "map (\<lambda>k. elemAt seq (i + stp * int k)) [0..<Suc (Suc d)] =
      elemAt seq i # map (\<lambda>k. elemAt seq (i + stp + stp * int k)) [0..<Suc d]"
  proof -
    have "[0..<Suc (Suc d)] = 0 # map Suc [0..<Suc d]"
      by (simp only: map_Suc_upt upt_conv_Cons [of 0 "Suc (Suc d)"])
    then show ?thesis by (simp add: comp_def algebra_simps del: upt_Suc)
  qed
  show ?case
    by (subst pathLoop.simps) (simp only: ne if_False Suc.IH [OF Suc.prems(1) next'] shift, simp)
qed

lemma buildRangePath_known:
  assumes dist: "distinct (STATE_SEQUENCE cfg)" and a: "a \<in> set (STATE_SEQUENCE cfg)"
    and b: "b \<in> set (STATE_SEQUENCE cfg)" and ne: "[] \<notin> set (STATE_SEQUENCE cfg)"
  defines "ia \<equiv> indexOf (STATE_SEQUENCE cfg) (Some a)"
    and "ib \<equiv> indexOf (STATE_SEQUENCE cfg) (Some b)"
  shows "buildRangePath cfg (Some a) (Some b) =
     Some (map (\<lambda>k. elemAt (STATE_SEQUENCE cfg) (ia + (if ib > ia then 1 else -1) * int k))
            [0..<Suc (nat \<bar>ia - ib\<bar>)])"
proof -
  have nf: "\<not> falsy (Some a)" "\<not> falsy (Some b)" using a b ne by (auto simp: falsy_def)
  have ka: "ia \<noteq> -1" "ib \<noteq> -1" using a b by (auto simp: ia_def ib_def indexOf_unknown)
  have ea: "elemAt (STATE_SEQUENCE cfg) ia = Some a" "elemAt (STATE_SEQUENCE cfg) ib = Some b"
    using elemAt_indexOf a b by (auto simp: ia_def ib_def)
  show ?thesis
  proof (cases "ia = ib")
    case True
    then show ?thesis using nf ka ea
      by (simp add: buildRangePath_def Let_def ia_def [symmetric] ib_def [symmetric])
  next
    case False
    define stp :: int where "stp = (if ib > ia then 1 else -1)"
    have "stp \<noteq> 0" "ib = ia + stp * int (nat \<bar>ia - ib\<bar>)"
      using False by (auto simp: stp_def)
    from pathLoop_walk [OF this, of "STATE_SEQUENCE cfg" "[]"] show ?thesis
      using nf ka False
      by (simp add: buildRangePath_def Let_def ia_def [symmetric] ib_def [symmetric] stp_def)
  qed
qed


lemma buildRangePath_unknown:
  "indexOf (STATE_SEQUENCE cfg) a = -1 \<Longrightarrow> \<not> falsy b \<Longrightarrow> buildRangePath cfg a b = Some [b]"
  by (simp add: buildRangePath_def Let_def)

text \<open>
  Claim C5. Let the state order have no repeated and no empty name. For \<open>a\<close> and \<open>b\<close>
  in the order, \<^verbatim>\<open>buildRangePath(a, b)\<close> returns a list that starts with \<open>a\<close>, ends with
  \<open>b\<close>, has \<open>|position a - position b| + 1\<close> elements, and in which the positions of
  two consecutive elements differ by exactly 1. When \<open>a\<close> is not in the order
  (\<^verbatim>\<open>null\<close> included) and \<open>b\<close> is a non-empty name, the result is \<open>[b]\<close>.
\<close>

theorem buildRangePath_spec:
  assumes dist: "distinct (STATE_SEQUENCE cfg)" and ne: "[] \<notin> set (STATE_SEQUENCE cfg)"
  shows "(a \<in> set (STATE_SEQUENCE cfg) \<and> b \<in> set (STATE_SEQUENCE cfg) \<longrightarrow>
           (\<exists>p. buildRangePath cfg (Some a) (Some b) = Some p
              \<and> p \<noteq> [] \<and> hd p = Some a \<and> last p = Some b
              \<and> int (length p) =
                  \<bar>indexOf (STATE_SEQUENCE cfg) (Some a) - indexOf (STATE_SEQUENCE cfg) (Some b)\<bar> + 1
              \<and> (\<forall>k. Suc k < length p \<longrightarrow>
                    \<bar>indexOf (STATE_SEQUENCE cfg) (p ! k)
                      - indexOf (STATE_SEQUENCE cfg) (p ! Suc k)\<bar> = 1)))
       \<and> (indexOf (STATE_SEQUENCE cfg) a' = -1 \<and> \<not> falsy b' \<longrightarrow>
            buildRangePath cfg a' b' = Some [b'])"
proof (intro conjI impI)
  assume ab: "a \<in> set (STATE_SEQUENCE cfg) \<and> b \<in> set (STATE_SEQUENCE cfg)"
  define S where "S = STATE_SEQUENCE cfg"
  define ia where "ia = indexOf S (Some a)"
  define ib where "ib = indexOf S (Some b)"
  define stp :: int where "stp = (if ib > ia then 1 else -1)"
  define d where "d = nat \<bar>ia - ib\<bar>"
  define f where "f = (\<lambda>k. elemAt S (ia + stp * int k))"
  define p where "p = map f [0..<Suc d]"
  have path: "buildRangePath cfg (Some a) (Some b) = Some p"
    using buildRangePath_known [OF dist _ _ ne, of a b] ab
    by (simp add: p_def f_def d_def stp_def ia_def ib_def S_def)
  have ra: "elemAt S ia = Some a" "0 \<le> ia" "ia < int (length S)"
    and rb: "elemAt S ib = Some b" "0 \<le> ib" "ib < int (length S)"
    using elemAt_indexOf [of a S] elemAt_indexOf [of b S] ab by (auto simp: ia_def ib_def S_def)
  have tgt: "ia + stp * int d = ib" by (auto simp: stp_def d_def)
  have len: "length p = Suc d" by (simp add: p_def)
  have nth: "p ! k = f k" if "k \<le> d" for k
    using that unfolding p_def by (metis add_0 le_imp_less_Suc nth_map_upt diff_zero)
  have idx: "indexOf S (f k) = ia + stp * int k" if "k \<le> d" for k
  proof -
    have "0 \<le> ia + stp * int k \<and> ia + stp * int k < int (length S)"
      using that ra rb by (auto simp: stp_def d_def)
    then show ?thesis using dist by (simp add: f_def indexOf_elemAt S_def)
  qed
  have hd: "hd p = Some a" using ra by (simp add: p_def f_def hd_map upt_conv_Cons del: upt_Suc)
  have "last p = f d" by (simp add: p_def)
  then have last: "last p = Some b" using tgt rb by (simp add: f_def)
  have adj: "\<bar>indexOf S (p ! k) - indexOf S (p ! Suc k)\<bar> = 1" if "Suc k < length p" for k
  proof -
    from that len have "k \<le> d" "Suc k \<le> d" by auto
    then show ?thesis by (simp add: nth idx) (simp add: stp_def algebra_simps)
  qed
  have "int (length p) = \<bar>ia - ib\<bar> + 1" by (simp add: len d_def)
  with path hd last adj len
  show "\<exists>p. buildRangePath cfg (Some a) (Some b) = Some p
              \<and> p \<noteq> [] \<and> hd p = Some a \<and> last p = Some b
              \<and> int (length p) =
                  \<bar>indexOf (STATE_SEQUENCE cfg) (Some a) - indexOf (STATE_SEQUENCE cfg) (Some b)\<bar> + 1
              \<and> (\<forall>k. Suc k < length p \<longrightarrow>
                    \<bar>indexOf (STATE_SEQUENCE cfg) (p ! k)
                      - indexOf (STATE_SEQUENCE cfg) (p ! Suc k)\<bar> = 1)"
    unfolding ia_def ib_def S_def by (intro exI [of _ p]) auto
next
  assume "indexOf (STATE_SEQUENCE cfg) a' = - 1 \<and> \<not> falsy b'"
  then show "buildRangePath cfg a' b' = Some [b']" by (simp add: buildRangePath_unknown)
qed


theorem buildRangePath_spec_witness:
  "(\<exists>p. buildRangePath model_js (Some ''SF'') (Some ''S2'') = Some p
       \<and> p \<noteq> [] \<and> hd p = Some ''SF'' \<and> last p = Some ''S2'' \<and> int (length p) = 3
       \<and> (\<forall>k. Suc k < length p \<longrightarrow>
             \<bar>indexOf (STATE_SEQUENCE model_js) (p ! k)
               - indexOf (STATE_SEQUENCE model_js) (p ! Suc k)\<bar> = 1))
   \<and> buildRangePath model_js (Some ''S9'') (Some ''S2'') = Some [Some ''S2'']
   \<and> buildRangePath model_js None (Some ''S2'') = Some [Some ''S2'']"
  using buildRangePath_spec [of model_js "''SF''" "''S2''" "Some ''S9''" "Some ''S2''"]
    buildRangePath_spec [of model_js "''SF''" "''S2''" None "Some ''S2''"]
  by (simp add: indexOf_def falsy_def)

section \<open>Properties of the sustained-state tracker\<close>


lemma updates_Cons:
  "updates cfg s ((v, t) # rs) =
     (fst (updates cfg (fst (update cfg s v t)) rs),
      snd (update cfg s v t) # snd (updates cfg (fst (update cfg s v t)) rs))"
  by (simp add: case_prod_beta Let_def)

lemma updates_snoc:
  "updates cfg s (rs @ [(v, t)]) =
     (fst (update cfg (fst (updates cfg s rs)) v t),
      snd (updates cfg s rs) @ [snd (update cfg (fst (updates cfg s rs)) v t)])"
  by (induction rs arbitrary: s) (auto simp: updates_Cons simp del: updates.simps(2))

lemma update_inSF_stay:
  "inSF s \<Longrightarrow> classify cfg v \<noteq> Some ''S2'' \<Longrightarrow>
     update cfg s v now = (s\<lparr>currentRange := Some ''SF''\<rparr>, \<lparr>u_range = Some ''SF'', u_transition = None\<rparr>)"
  by (simp add: update_def Let_def)

lemma update_inSF_exit:
  "inSF s \<Longrightarrow> classify model_js v = Some ''S2'' \<Longrightarrow>
     update model_js s v now =
       (s\<lparr>inSF := False, s3EnteredAt := None, currentRange := Some ''S2''\<rparr>,
        \<lparr>u_range = Some ''S2'',
         u_transition = Some \<lparr>p_key = ''S2_S3'', p_direction = down,
            p_file = ''./media/transition_2_3.json'', p_durationMs = 467, p_mode = reverse\<rparr>\<rparr>)"
  by (simp add: update_def Let_def model_files_transition_def)

text \<open>While only S3 readings arrive, the tracker is in the final state or still holds the first timestamp.\<close>

lemma update_S3_dwell:
  assumes "classify cfg v = Some ''S3''" "inSF s \<or> s3EnteredAt s = Some t0"
  shows "inSF (fst (update cfg s v now)) \<or> s3EnteredAt (fst (update cfg s v now)) = Some t0"
  using assms by (auto simp: update_def Let_def)

lemma updates_S3_dwell:
  assumes "\<forall>x\<in>set rs. classify cfg (fst x) = Some ''S3''" "inSF s \<or> s3EnteredAt s = Some t0"
  shows "inSF (fst (updates cfg s rs)) \<or> s3EnteredAt (fst (updates cfg s rs)) = Some t0"
  using assms
proof (induction rs arbitrary: s)
  case Nil
  then show ?case by simp
next
  case (Cons x rs)
  obtain v t where x: "x = (v, t)" by (cases x)
  from Cons.prems have "classify cfg v = Some ''S3''" by (simp add: x)
  from update_S3_dwell [OF this Cons.prems(2)]
  have "inSF (fst (update cfg s v t)) \<or> s3EnteredAt (fst (update cfg s v t)) = Some t0" .
  from Cons.IH [OF _ this] Cons.prems(1) show ?case
    by (simp add: x updates_Cons del: updates.simps(2))
qed

lemma update_S3_first:
  assumes "classify cfg v = Some ''S3''" "\<not> inSF s" "s3EnteredAt s = None"
  shows "s3EnteredAt (fst (update cfg s v t0)) = Some t0"
  using assms by (simp add: update_def Let_def SF_TIMEOUT_MS_def)

lemma update_S3_timeout:
  assumes "classify cfg v = Some ''S3''" "inSF s \<or> s3EnteredAt s = Some t0" "now - t0 \<ge> 10000"
  shows "update cfg s v now =
     (s\<lparr>s3EnteredAt := None, inSF := True, currentRange := Some ''SF''\<rparr>,
      \<lparr>u_range = Some ''SF'', u_transition = None\<rparr>) \<or>
     update cfg s v now = (s\<lparr>currentRange := Some ''SF''\<rparr>, \<lparr>u_range = Some ''SF'', u_transition = None\<rparr>) \<and> inSF s"
  using assms by (auto simp: update_def Let_def SF_TIMEOUT_MS_def)

lemma escalation:
  assumes start: "\<not> inSF s" "s3EnteredAt s = None"
    and s3: "\<forall>x\<in>set ((v0, t0) # mid @ [(vn, tn)]). classify cfg (fst x) = Some ''S3''"
    and span: "tn - t0 \<ge> 10000"
  shows "inSF (fst (updates cfg s ((v0, t0) # mid @ [(vn, tn)])))
     \<and> currentRange (fst (updates cfg s ((v0, t0) # mid @ [(vn, tn)]))) = Some ''SF''
     \<and> last (snd (updates cfg s ((v0, t0) # mid @ [(vn, tn)]))) =
          \<lparr>u_range = Some ''SF'', u_transition = None\<rparr>"
proof -
  define s1 where "s1 = fst (update cfg s v0 t0)"
  define s2 where "s2 = fst (updates cfg s1 mid)"
  have c0: "classify cfg v0 = Some ''S3''" and cn: "classify cfg vn = Some ''S3''"
    and cm: "\<forall>x\<in>set mid. classify cfg (fst x) = Some ''S3''"
    using s3 by auto
  have "s3EnteredAt s1 = Some t0" unfolding s1_def by (rule update_S3_first [OF c0 start])
  then have "inSF s2 \<or> s3EnteredAt s2 = Some t0"
    unfolding s2_def using updates_S3_dwell [OF cm] by blast
  from update_S3_timeout [OF cn this span]
  have fin: "inSF (fst (update cfg s2 vn tn)) \<and> currentRange (fst (update cfg s2 vn tn)) = Some ''SF''
     \<and> snd (update cfg s2 vn tn) = \<lparr>u_range = Some ''SF'', u_transition = None\<rparr>"
    by auto
  have "updates cfg s ((v0, t0) # mid @ [(vn, tn)]) =
      (fst (update cfg s2 vn tn),
       snd (update cfg s v0 t0) # snd (updates cfg s1 mid) @ [snd (update cfg s2 vn tn)])"
    by (simp add: updates_snoc updates_Cons s1_def s2_def del: updates.simps(2))
  with fin show ?thesis by simp
qed




text \<open>
  Claim C2. (a) From a tracker that is not in the final state and has no dwell
  timestamp, a run of readings that are all classified \<open>S3\<close>, the last of them at least
  10000 ms after the first, ends in the final state: \<open>inSF\<close> is true, the current range
  is \<open>SF\<close>, and the last call returns range \<open>SF\<close> with a \<^verbatim>\<open>null\<close> transition. (b) In the
  final state a reading that is not classified \<open>S2\<close> leaves \<open>inSF\<close> true and the current
  range \<open>SF\<close>, and returns range \<open>SF\<close> with a \<^verbatim>\<open>null\<close> transition. (c) In the final state
  a reading classified \<open>S2\<close> clears \<open>inSF\<close>, makes \<open>S2\<close> the current range and returns
  range \<open>S2\<close> with one plan: key \<open>S2_S3\<close>, the file and duration of that descriptor,
  mode reverse.
\<close>

theorem sustained_state_escalation:
  "(\<not> inSF s \<and> s3EnteredAt s = None
      \<and> (\<forall>x\<in>set ((v0, t0) # mid @ [(vn, tn)]). classify model_js (fst x) = Some ''S3'')
      \<and> tn - t0 \<ge> 10000 \<longrightarrow>
      inSF (fst (updates model_js s ((v0, t0) # mid @ [(vn, tn)])))
      \<and> currentRange (fst (updates model_js s ((v0, t0) # mid @ [(vn, tn)]))) = Some ''SF''
      \<and> last (snd (updates model_js s ((v0, t0) # mid @ [(vn, tn)]))) =
           \<lparr>u_range = Some ''SF'', u_transition = None\<rparr>)
   \<and> (inSF s \<and> classify model_js v \<noteq> Some ''S2'' \<longrightarrow>
      inSF (fst (update model_js s v now))
      \<and> currentRange (fst (update model_js s v now)) = Some ''SF''
      \<and> snd (update model_js s v now) = \<lparr>u_range = Some ''SF'', u_transition = None\<rparr>)
   \<and> (inSF s \<and> classify model_js v = Some ''S2'' \<longrightarrow>
      \<not> inSF (fst (update model_js s v now))
      \<and> currentRange (fst (update model_js s v now)) = Some ''S2''
      \<and> files_transition model_js ''S2_S3'' =
           Some \<lparr>t_file = ''./media/transition_2_3.json'', t_durationMs = Some 467\<rparr>
      \<and> snd (update model_js s v now) =
           \<lparr>u_range = Some ''S2'',
            u_transition = Some \<lparr>p_key = ''S2_S3'', p_direction = down,
              p_file = ''./media/transition_2_3.json'', p_durationMs = 467,
              p_mode = reverse\<rparr>\<rparr>)"
proof (intro conjI impI)
  assume h: "\<not> inSF s \<and> s3EnteredAt s = None
      \<and> (\<forall>x\<in>set ((v0, t0) # mid @ [(vn, tn)]). classify model_js (fst x) = Some ''S3'')
      \<and> tn - t0 \<ge> 10000"
  then have e: "inSF (fst (updates model_js s ((v0, t0) # mid @ [(vn, tn)])))
     \<and> currentRange (fst (updates model_js s ((v0, t0) # mid @ [(vn, tn)]))) = Some ''SF''
     \<and> last (snd (updates model_js s ((v0, t0) # mid @ [(vn, tn)]))) =
          \<lparr>u_range = Some ''SF'', u_transition = None\<rparr>"
    by (intro escalation) blast+
  from e show "inSF (fst (updates model_js s ((v0, t0) # mid @ [(vn, tn)])))" by blast
  from e show "currentRange (fst (updates model_js s ((v0, t0) # mid @ [(vn, tn)]))) = Some ''SF''"
    by blast
  from e show "last (snd (updates model_js s ((v0, t0) # mid @ [(vn, tn)]))) =
          \<lparr>u_range = Some ''SF'', u_transition = None\<rparr>" by blast
next
  assume h: "inSF s \<and> classify model_js v \<noteq> Some ''S2''"
  then have u: "update model_js s v now =
      (s\<lparr>currentRange := Some ''SF''\<rparr>, \<lparr>u_range = Some ''SF'', u_transition = None\<rparr>)"
    by (simp add: update_inSF_stay)
  from h u show "inSF (fst (update model_js s v now))" by simp
  from u show "currentRange (fst (update model_js s v now)) = Some ''SF''" by simp
  from u show "snd (update model_js s v now) = \<lparr>u_range = Some ''SF'', u_transition = None\<rparr>"
    by simp
next
  assume h: "inSF s \<and> classify model_js v = Some ''S2''"
  note u = update_inSF_exit [of s v now]
  from h u show "\<not> inSF (fst (update model_js s v now))" by simp
  from h u show "currentRange (fst (update model_js s v now)) = Some ''S2''" by simp
  show "files_transition model_js ''S2_S3'' =
           Some \<lparr>t_file = ''./media/transition_2_3.json'', t_durationMs = Some 467\<rparr>"
    by (simp add: model_files_transition_def)
  from h u show "snd (update model_js s v now) =
           \<lparr>u_range = Some ''S2'',
            u_transition = Some \<lparr>p_key = ''S2_S3'', p_direction = down,
              p_file = ''./media/transition_2_3.json'', p_durationMs = 467,
              p_mode = reverse\<rparr>\<rparr>" by simp
qed

theorem sustained_state_escalation_witness:
  "inSF (fst (updates model_js animationState
      [(JNum (Finite 95), 0), (JNum (Finite 120), 5000), (JNum (Finite 90), 10000)]))
   \<and> last (snd (updates model_js animationState
      [(JNum (Finite 95), 0), (JNum (Finite 120), 5000), (JNum (Finite 90), 10000)])) =
        \<lparr>u_range = Some ''SF'', u_transition = None\<rparr>
   \<and> inSF (fst (update model_js \<lparr>currentRange = Some ''SF'', inSF = True, s3EnteredAt = None\<rparr>
        (JNum (Finite 60)) 20000))
   \<and> snd (update model_js \<lparr>currentRange = Some ''SF'', inSF = True, s3EnteredAt = None\<rparr>
        (JNum (Finite 60)) 20000) = \<lparr>u_range = Some ''SF'', u_transition = None\<rparr>
   \<and> \<not> inSF (fst (update model_js \<lparr>currentRange = Some ''SF'', inSF = True, s3EnteredAt = None\<rparr>
        (JNum (Finite 80)) 20000))
   \<and> snd (update model_js \<lparr>currentRange = Some ''SF'', inSF = True, s3EnteredAt = None\<rparr>
        (JNum (Finite 80)) 20000) =
        \<lparr>u_range = Some ''S2'',
         u_transition = Some \<lparr>p_key = ''S2_S3'', p_direction = down,
           p_file = ''./media/transition_2_3.json'', p_durationMs = 467,
           p_mode = reverse\<rparr>\<rparr>"
  using sustained_state_escalation [where s = animationState and ?v0.0 = "JNum (Finite 95)"
      and ?t0.0 = 0 and mid = "[(JNum (Finite 120), 5000)]" and vn = "JNum (Finite 90)"
      and tn = 10000]
    sustained_state_escalation
      [where s = "\<lparr>currentRange = Some ''SF'', inSF = True, s3EnteredAt = None\<rparr>"
        and v = "JNum (Finite 60)" and now = 20000]
    sustained_state_escalation
      [where s = "\<lparr>currentRange = Some ''SF'', inSF = True, s3EnteredAt = None\<rparr>"
        and v = "JNum (Finite 80)" and now = 20000]
  by (simp add: classify_model animationState_def del: updates.simps)

lemma updates_inv: "tracker_inv s \<Longrightarrow> tracker_inv (fst (updates cfg s rs))"
proof (induction rs arbitrary: s)
  case Nil
  then show ?case by simp
next
  case (Cons x rs)
  obtain v t where x: "x = (v, t)" by (cases x)
  have "tracker_inv (fst (update cfg s v t))"
    using Cons.prems
    by (auto simp: tracker_inv_def update_def Let_def split: option.splits)
  from Cons.IH [OF this] show ?case by (simp add: x updates_Cons del: updates.simps(2))
qed

text \<open>
  Claim C7. The tracker keeps the invariant that a dwell timestamp is present only
  outside the final state; the initial tracker and every tracker after \<^verbatim>\<open>reset\<close>
  satisfy it with no timestamp. After an \<^verbatim>\<open>update\<close> from a tracker that satisfies it,
  a timestamp is present only if the reading was classified \<open>S3\<close> and the tracker is
  not in the final state; a reading of any other class leaves no timestamp, and so
  does a call that enters or leaves the final state. The same holds after every run
  of calls from the initial tracker, for the last reading of the run.
\<close>

theorem tracker_timer_invariant:
  assumes "tracker_inv s"
  shows "tracker_inv (fst (update cfg s v now))
     \<and> (s3EnteredAt (fst (update cfg s v now)) \<noteq> None \<longrightarrow>
          classify cfg v = Some ''S3'' \<and> \<not> inSF (fst (update cfg s v now)))
     \<and> (classify cfg v \<noteq> Some ''S3'' \<longrightarrow> s3EnteredAt (fst (update cfg s v now)) = None)
     \<and> (inSF (fst (update cfg s v now)) \<noteq> inSF s \<longrightarrow>
          s3EnteredAt (fst (update cfg s v now)) = None)
     \<and> tracker_inv (reset s') \<and> s3EnteredAt (reset s') = None
     \<and> tracker_inv animationState \<and> s3EnteredAt animationState = None
     \<and> (s3EnteredAt (fst (updates cfg animationState (rs @ [(v, now)]))) \<noteq> None \<longrightarrow>
          classify cfg v = Some ''S3''
          \<and> \<not> inSF (fst (updates cfg animationState (rs @ [(v, now)]))))"
proof -
  have step: "tracker_inv (fst (update cfg s0 v now))
     \<and> (s3EnteredAt (fst (update cfg s0 v now)) \<noteq> None \<longrightarrow>
          classify cfg v = Some ''S3'' \<and> \<not> inSF (fst (update cfg s0 v now)))
     \<and> (classify cfg v \<noteq> Some ''S3'' \<longrightarrow> s3EnteredAt (fst (update cfg s0 v now)) = None)
     \<and> (inSF (fst (update cfg s0 v now)) \<noteq> inSF s0 \<longrightarrow>
          s3EnteredAt (fst (update cfg s0 v now)) = None)"
    if "tracker_inv s0" for s0
    using that
    by (auto simp: tracker_inv_def update_def Let_def split: option.splits)
  have init: "tracker_inv animationState" "s3EnteredAt animationState = None"
    by (simp_all add: tracker_inv_def animationState_def)
  have rst: "tracker_inv (reset s')" "s3EnteredAt (reset s') = None"
    by (simp_all add: tracker_inv_def reset_def)
  have run: "tracker_inv (fst (updates cfg animationState rs))"
    by (rule updates_inv [OF init(1)])
  have last: "fst (updates cfg animationState (rs @ [(v, now)])) =
      fst (update cfg (fst (updates cfg animationState rs)) v now)"
    by (simp only: updates_snoc fst_conv)
  have run_post: "s3EnteredAt (fst (updates cfg animationState (rs @ [(v, now)]))) \<noteq> None \<longrightarrow>
          classify cfg v = Some ''S3''
          \<and> \<not> inSF (fst (updates cfg animationState (rs @ [(v, now)])))"
    unfolding last using step [OF run] by blast
  show ?thesis
    using step [OF assms] init rst run_post by blast
qed

theorem tracker_timer_invariant_witness:
  "tracker_inv animationState
   \<and> s3EnteredAt (fst (update model_js animationState (JNum (Finite 95)) 1000)) = Some 1000
   \<and> s3EnteredAt (fst (update model_js
        \<lparr>currentRange = Some ''S3'', inSF = False, s3EnteredAt = Some 1000\<rparr>
        (JNum (Finite 80)) 2000)) = None"
  using tracker_timer_invariant [of animationState model_js "JNum (Finite 95)" 1000]
    tracker_timer_invariant [of "\<lparr>currentRange = Some ''S3'', inSF = False, s3EnteredAt = Some 1000\<rparr>"
      model_js "JNum (Finite 80)" 2000]
  by (simp add: tracker_inv_def animationState_def classify_model update_def Let_def
      SF_TIMEOUT_MS_def)

section \<open>Properties of the background colour mapper\<close>

lemmas colour_defs =
  getBackgroundColor_def COLOR_KEYFRAMES_def hexToRgb_def parseHexPair_def hexDigit_def
  rgbToHex_def toHex_def toString16_def Math_round_def interpolateColor_def lerp_def
  digitChar_def Let_def

lemma getBackgroundColor_low:
  "v \<le> 76 \<Longrightarrow> getBackgroundColor (JNum (Finite v)) = ''#a4f12c''"
  by (simp add: getBackgroundColor_def COLOR_KEYFRAMES_def)

lemma getBackgroundColor_high:
  "v \<ge> 105 \<Longrightarrow> getBackgroundColor (JNum (Finite v)) = ''#ee5b2d''"
  by (simp add: getBackgroundColor_def COLOR_KEYFRAMES_def)

lemma getBackgroundColor_nonfinite:
  "getBackgroundColor (JNum NaN) = ''#a4f12c''"
  "getBackgroundColor (JNum PosInfinity) = ''#a4f12c''"
  "getBackgroundColor (JNum NegInfinity) = ''#a4f12c''"
  "getBackgroundColor JUndefined = ''#a4f12c''"
  by (simp_all add: getBackgroundColor_def COLOR_KEYFRAMES_def)

lemma keyframe_rgb:
  "hexToRgb ''#a4f12c'' = \<lparr>rgb_r = 164, rgb_g = 241, rgb_b = 44\<rparr>"
  "hexToRgb ''#f1e22c'' = \<lparr>rgb_r = 241, rgb_g = 226, rgb_b = 44\<rparr>"
  "hexToRgb ''#ef8e2e'' = \<lparr>rgb_r = 239, rgb_g = 142, rgb_b = 46\<rparr>"
  "hexToRgb ''#ee5b2d'' = \<lparr>rgb_r = 238, rgb_g = 91, rgb_b = 45\<rparr>"
  by (simp_all add: hexToRgb_def parseHexPair_def hexDigit_def)

lemma midpoint_1: "getBackgroundColor (JNum (Finite ((76 + 85) / 2))) = ''#cbea2c''"
  by (simp add: colour_defs)

lemma midpoint_2: "getBackgroundColor (JNum (Finite ((85 + 95) / 2))) = ''#f0b82d''"
  by (simp add: colour_defs)

lemma midpoint_3: "getBackgroundColor (JNum (Finite ((95 + 105) / 2))) = ''#ef752e''"
  by (simp add: colour_defs)

lemma mean_1:
  "rgbToHex \<lparr>rgb_r = (164 + 241) / 2, rgb_g = (241 + 226) / 2, rgb_b = (44 + 44) / 2\<rparr> = ''#cbea2c''"
  by (simp add: rgbToHex_def toHex_def toString16_def Math_round_def digitChar_def)

lemma mean_2:
  "rgbToHex \<lparr>rgb_r = (241 + 239) / 2, rgb_g = (226 + 142) / 2, rgb_b = (44 + 46) / 2\<rparr> = ''#f0b82d''"
  by (simp add: rgbToHex_def toHex_def toString16_def Math_round_def digitChar_def)

lemma mean_3:
  "rgbToHex \<lparr>rgb_r = (239 + 238) / 2, rgb_g = (142 + 91) / 2, rgb_b = (46 + 45) / 2\<rparr> = ''#ef752e''"
  by (simp add: rgbToHex_def toHex_def toString16_def Math_round_def digitChar_def)

lemma Math_round_nearest: "\<bar>real_of_int (Math_round x) - x\<bar> \<le> 1 / 2"
  unfolding Math_round_def by linarith

text \<open>
  The three midpoints are 80.5, 90 and 100. There the factor is exactly one half and
  every intermediate value is a multiple of one half below 256, so the computation on
  doubles has no rounding error and agrees with the computation on reals.
\<close>

lemma midpoint_general:
  assumes "Suc i < length COLOR_KEYFRAMES"
  shows "getBackgroundColor
      (JNum (Finite ((dB (COLOR_KEYFRAMES ! i) + dB (COLOR_KEYFRAMES ! Suc i)) / 2))) =
    rgbToHex
      \<lparr>rgb_r = (rgb_r (hexToRgb (hex (COLOR_KEYFRAMES ! i)))
                + rgb_r (hexToRgb (hex (COLOR_KEYFRAMES ! Suc i)))) / 2,
       rgb_g = (rgb_g (hexToRgb (hex (COLOR_KEYFRAMES ! i)))
                + rgb_g (hexToRgb (hex (COLOR_KEYFRAMES ! Suc i)))) / 2,
       rgb_b = (rgb_b (hexToRgb (hex (COLOR_KEYFRAMES ! i)))
                + rgb_b (hexToRgb (hex (COLOR_KEYFRAMES ! Suc i)))) / 2\<rparr>"
proof -
  have "i = 0 \<or> i = 1 \<or> i = 2" using assms by (auto simp: COLOR_KEYFRAMES_def)
  then show ?thesis
  proof (elim disjE)
    assume "i = 0"
    then show ?thesis using midpoint_1 mean_1 by (simp add: COLOR_KEYFRAMES_def keyframe_rgb)
  next
    assume "i = 1"
    then show ?thesis using midpoint_2 mean_2 by (simp add: COLOR_KEYFRAMES_def keyframe_rgb)
  next
    assume "i = 2"
    then show ?thesis using midpoint_3 mean_3
      by (simp add: COLOR_KEYFRAMES_def keyframe_rgb numeral_2_eq_2)
  qed
qed

text \<open>
  Claim C8. \<^verbatim>\<open>getBackgroundColor\<close> returns the first keyframe's colour, \<open>#a4f12c\<close>, for
  every finite input at or below the first keyframe's loudness, 76, and for \<^verbatim>\<open>NaN\<close>,
  both infinities and a missing input, which it treats as 76. It returns the last
  keyframe's colour, \<open>#ee5b2d\<close>, for every finite input at or above the last
  keyframe's loudness, 105. At the midpoint between the loudness values of two
  adjacent keyframes the result is the hexadecimal form of the mean of the two
  keyframe colours, taken channel by channel; the hexadecimal form rounds each
  channel with \<^verbatim>\<open>Math.round\<close>, which is within one half of its argument. The three
  midpoint colours are \<open>#cbea2c\<close>, \<open>#f0b82d\<close> and \<open>#ef752e\<close>.
\<close>

theorem getBackgroundColor_spec:
  "(v \<le> dB (hd COLOR_KEYFRAMES) \<longrightarrow>
      getBackgroundColor (JNum (Finite v)) = hex (hd COLOR_KEYFRAMES))
   \<and> dB (hd COLOR_KEYFRAMES) = 76 \<and> hex (hd COLOR_KEYFRAMES) = ''#a4f12c''
   \<and> getBackgroundColor (JNum NaN) = getBackgroundColor (JNum (Finite 76))
   \<and> getBackgroundColor (JNum PosInfinity) = getBackgroundColor (JNum (Finite 76))
   \<and> getBackgroundColor (JNum NegInfinity) = getBackgroundColor (JNum (Finite 76))
   \<and> getBackgroundColor JUndefined = getBackgroundColor (JNum (Finite 76))
   \<and> (v \<ge> dB (last COLOR_KEYFRAMES) \<longrightarrow>
      getBackgroundColor (JNum (Finite v)) = hex (last COLOR_KEYFRAMES))
   \<and> dB (last COLOR_KEYFRAMES) = 105 \<and> hex (last COLOR_KEYFRAMES) = ''#ee5b2d''
   \<and> (Suc i < length COLOR_KEYFRAMES \<longrightarrow>
      getBackgroundColor
        (JNum (Finite ((dB (COLOR_KEYFRAMES ! i) + dB (COLOR_KEYFRAMES ! Suc i)) / 2))) =
      rgbToHex
        \<lparr>rgb_r = (rgb_r (hexToRgb (hex (COLOR_KEYFRAMES ! i)))
                  + rgb_r (hexToRgb (hex (COLOR_KEYFRAMES ! Suc i)))) / 2,
         rgb_g = (rgb_g (hexToRgb (hex (COLOR_KEYFRAMES ! i)))
                  + rgb_g (hexToRgb (hex (COLOR_KEYFRAMES ! Suc i)))) / 2,
         rgb_b = (rgb_b (hexToRgb (hex (COLOR_KEYFRAMES ! i)))
                  + rgb_b (hexToRgb (hex (COLOR_KEYFRAMES ! Suc i)))) / 2\<rparr>)
   \<and> \<bar>real_of_int (Math_round x) - x\<bar> \<le> 1 / 2
   \<and> getBackgroundColor (JNum (Finite ((76 + 85) / 2))) = ''#cbea2c''
   \<and> getBackgroundColor (JNum (Finite ((85 + 95) / 2))) = ''#f0b82d''
   \<and> getBackgroundColor (JNum (Finite ((95 + 105) / 2))) = ''#ef752e''"
proof -
  have ends: "dB (hd COLOR_KEYFRAMES) = 76" "hex (hd COLOR_KEYFRAMES) = ''#a4f12c''"
    "dB (last COLOR_KEYFRAMES) = 105" "hex (last COLOR_KEYFRAMES) = ''#ee5b2d''"
    by (simp_all add: COLOR_KEYFRAMES_def)
  have low: "getBackgroundColor (JNum (Finite 76)) = ''#a4f12c''"
    by (simp add: getBackgroundColor_low)
  show ?thesis
    unfolding ends getBackgroundColor_nonfinite low
    using getBackgroundColor_low [of v] getBackgroundColor_high [of v] midpoint_general [of i]
      Math_round_nearest [of x] midpoint_1 midpoint_2 midpoint_3
    by blast
qed

theorem getBackgroundColor_spec_witness:
  "getBackgroundColor (JNum (Finite 50)) = ''#a4f12c''
   \<and> getBackgroundColor (JNum (Finite 200)) = ''#ee5b2d''
   \<and> getBackgroundColor (JNum (Finite (161 / 2))) = ''#cbea2c''"
  using getBackgroundColor_spec [of 50 0] getBackgroundColor_spec [of 200 0]
  by (simp add: COLOR_KEYFRAMES_def keyframe_rgb)

section \<open>Properties of the controller\<close>

lemma onReading_unready_eq:
  "\<not> isPlayerReady c \<Longrightarrow> onReading cfg v now c = updateBackgroundColor c v"
  by (simp add: onReading_def isPlayerReady_def updateBackgroundColor_def Let_def)

lemma updateBackgroundColor_eq:
  "updateBackgroundColor c v =
     c\<lparr>backgroundColor := (if hasBody c then Some (getBackgroundColor v) else backgroundColor c)\<rparr>"
  by (simp add: updateBackgroundColor_def Let_def)

text \<open>
  Claim C9. When the player is not ready, \<^verbatim>\<open>onReading\<close> returns the state it was
  called in with only the background colour set (when the page has a body): no load
  is issued, no call is left suspended, and \<open>previousRange\<close>, the sequence counter and
  the tracker with its three fields are unchanged, so the tracker was not invoked.
  \<^verbatim>\<open>onReading\<close> is a total function of the model without an error result.
\<close>

theorem onReading_unready:
  assumes "\<not> isPlayerReady c"
  shows "(hasBody c \<longrightarrow>
        onReading cfg v now c = c\<lparr>backgroundColor := Some (getBackgroundColor v)\<rparr>)
     \<and> (\<not> hasBody c \<longrightarrow> onReading cfg v now c = c)
     \<and> loads (onReading cfg v now c) = loads c
     \<and> pending (onReading cfg v now c) = pending c
     \<and> previousRange (onReading cfg v now c) = previousRange c
     \<and> sequenceCounter (onReading cfg v now c) = sequenceCounter c
     \<and> tracker (onReading cfg v now c) = tracker c
     \<and> currentRange (tracker (onReading cfg v now c)) = currentRange (tracker c)
     \<and> inSF (tracker (onReading cfg v now c)) = inSF (tracker c)
     \<and> s3EnteredAt (tracker (onReading cfg v now c)) = s3EnteredAt (tracker c)"
  using assms by (simp add: onReading_unready_eq updateBackgroundColor_eq)

theorem onReading_unready_witness:
  "onReading model_js (JNum (Finite 95)) 1000 (controller model_js False True) =
     (controller model_js False True)\<lparr>backgroundColor := Some ''#ef8e2e''\<rparr>
   \<and> loads (onReading model_js (JNum (Finite 95)) 1000 (controller model_js False True)) = []
   \<and> tracker (onReading model_js (JNum (Finite 95)) 1000 (controller model_js False True)) =
       animationState"
proof -
  have unready: "\<not> isPlayerReady (controller model_js False True)"
    by (simp add: isPlayerReady_def controller_def)
  have colour: "getBackgroundColor (JNum (Finite 95)) = ''#ef8e2e''"
    by (simp add: getBackgroundColor_def COLOR_KEYFRAMES_def hexToRgb_def parseHexPair_def
        hexDigit_def rgbToHex_def toHex_def toString16_def Math_round_def interpolateColor_def
        lerp_def digitChar_def Let_def)
  from onReading_unready [OF unready, of model_js "JNum (Finite 95)" 1000]
  show ?thesis by (simp add: colour controller_def)
qed

lemma onReading_noop:
  assumes "isPlayerReady c" "update cfg (tracker c) v now = (t', res)"
    and "\<not> falsy (u_range res)" "u_range res = previousRange c" "u_transition res = None"
  shows "onReading cfg v now c = (updateBackgroundColor c v)\<lparr>tracker := t'\<rparr>"
  using assms
  by (simp add: onReading_def isPlayerReady_def updateBackgroundColor_eq Let_def)

lemma path_S3_SF: "buildRangePath model_js (Some ''S3'') (Some ''SF'') = Some [Some ''S3'', Some ''SF'']"
  by (simp add: buildRangePath_def falsy_def indexOf_def pathLoop.simps elemAt_def)

lemma resolve_S3_SF: "resolveTransition model_js (Some ''S3'') (Some ''SF'') = None"
  by (simp add: resolveTransition_def getRangeDirection_def falsy_def indexOf_def
      model_files_transition_def Let_def)

lemma steady_SF:
  "getStateConfig model_js (Some ''SF'') =
     Some \<lparr>s_file = ''./media/state_final.json'', s_mode = Some forward, s_loop = Some True\<rparr>"
  by (simp add: getStateConfig_def model_files_state_def)

lemma sequence_S3_SF:
  assumes "isPlayerReady c" "n = sequenceCounter c"
  shows "playTransitionSequence model_js [Some ''S3'', Some ''SF''] n c =
     (c\<lparr>loads := loads c @
          [\<lparr>src = ''./media/state_final.json'', autoplay = True, loop = True, mode = forward\<rparr>]\<rparr>,
      Some SeqAwaitSteady)"
  using assms
  by (simp add: playTransitionSequence_def seqLoop.simps pathAt_def resolve_S3_SF playSteady_def
      steady_SF loadClip_def)

lemma onReading_escalate:
  assumes "isPlayerReady c"
    and "update model_js (tracker c) v now = (t', \<lparr>u_range = Some ''SF'', u_transition = None\<rparr>)"
    and "previousRange c = Some ''S3''"
  shows "onReading model_js v now c =
     (updateBackgroundColor c v)
       \<lparr>tracker := t',
        sequenceCounter := Suc (sequenceCounter c),
        loads := loads c @
          [\<lparr>src = ''./media/state_final.json'', autoplay = True, loop = True, mode = forward\<rparr>],
        pending := pending c @
          [\<lparr>sequenceId = Suc (sequenceCounter c), nextRange = Some ''SF'',
            path = [Some ''S3'', Some ''SF''], waiting = SeqAwaitSteady\<rparr>]\<rparr>"
proof -
  define c3 where "c3 = (updateBackgroundColor c v)
      \<lparr>tracker := t', sequenceCounter := Suc (sequenceCounter c)\<rparr>"
  have r: "isPlayerReady c3" "Suc (sequenceCounter c) = sequenceCounter c3"
    using assms(1) by (simp_all add: c3_def isPlayerReady_def updateBackgroundColor_eq)
  note seq = sequence_S3_SF [OF r]
  show ?thesis
    using assms seq
    by (simp add: onReading_def isPlayerReady_def updateBackgroundColor_eq Let_def falsy_def
        path_S3_SF suspend_def c3_def)
qed

lemma drain_idle: "pending c = [] \<Longrightarrow> drain cfg n c = c"
  by (cases n) simp_all

lemma drain_steady:
  assumes "pending c = [t]" "waiting t = SeqAwaitSteady"
  shows "drain cfg (Suc (Suc n)) c = c\<lparr>previousRange := nextRange t, pending := []\<rparr>"
  using assms by (simp add: resume_def resumeTask_def resumeSequence_def drain_idle)

lemma classify_model_cases:
  "classify model_js v = Some ''S1'' \<or> classify model_js v = Some ''S2''
     \<or> classify model_js v = Some ''S3''"
  by (simp add: classify_model)

text \<open>
  What the tracker answers to a reading that asks for no change: the range the
  controller shows and no plan, or the entry into the final state.
\<close>

lemma update_holdsRange:
  assumes "holdsRange model_js t v" "update model_js t v now = (t', res)"
  shows "(u_range res = currentRange t \<and> u_transition res = None \<and> \<not> falsy (u_range res)
            \<and> currentRange t' = currentRange t \<and> inSF t' = inSF t)
         \<or> (res = \<lparr>u_range = Some ''SF'', u_transition = None\<rparr> \<and> currentRange t = Some ''S3''
            \<and> classify model_js v = Some ''S3'' \<and> \<not> inSF t \<and> inSF t'
            \<and> currentRange t' = Some ''SF'')"
proof (cases "inSF t")
  case True
  with assms show ?thesis
    by (auto simp: holdsRange_def update_def Let_def falsy_def)
next
  case False
  with assms(1) have same: "classify model_js v = currentRange t" by (simp add: holdsRange_def)
  have none: "resolveTransition model_js (currentRange t) (currentRange t) = None"
    by (rule resolveTransition_same)
  have other: ?thesis
    if k: "classify model_js v = Some k" "k = ''S1'' \<or> k = ''S2''" for k
  proof -
    have cur: "currentRange t = Some k" using same k by simp
    have "resolveTransition model_js (Some k) (Some k) = None"
      by (rule resolveTransition_same)
    with False k cur have "update model_js t v now =
        (t\<lparr>s3EnteredAt := None, currentRange := Some k\<rparr>,
         \<lparr>u_range = Some k, u_transition = None\<rparr>)"
      by (auto simp: update_def Let_def)
    with assms(2) False cur k(2) show ?thesis by (auto simp: falsy_def)
  qed
  from classify_model_cases [of v] show ?thesis
  proof (elim disjE)
    assume "classify model_js v = Some ''S1''"
    then show ?thesis by (rule other) simp
  next
    assume "classify model_js v = Some ''S2''"
    then show ?thesis by (rule other) simp
  next
    assume c3: "classify model_js v = Some ''S3''"
    then have cur: "currentRange t = Some ''S3''" using same by simp
    have none3: "resolveTransition model_js (Some ''S3'') (Some ''S3'') = None"
      by (rule resolveTransition_same)
    define e where "e = (case s3EnteredAt t of None \<Rightarrow> now | Some x \<Rightarrow> x)"
    show ?thesis
    proof (cases "now - e \<ge> SF_TIMEOUT_MS")
      case True
      with False c3 have "update model_js t v now =
          (t\<lparr>s3EnteredAt := Some e, inSF := True, currentRange := Some ''SF'',
              s3EnteredAt := None\<rparr>,
           \<lparr>u_range = Some ''SF'', u_transition = None\<rparr>)"
        by (simp add: update_def Let_def e_def)
      with assms(2) False c3 cur show ?thesis by auto
    next
      case timer: False
      with False c3 cur none3 have "update model_js t v now =
          (t\<lparr>s3EnteredAt := Some e, currentRange := Some ''S3''\<rparr>,
           \<lparr>u_range = Some ''S3'', u_transition = None\<rparr>)"
        by (simp add: update_def Let_def e_def)
      with assms(2) False cur show ?thesis by (auto simp: falsy_def)
    qed
  qed
qed

lemma settle_step:
  fixes n :: nat and now :: int
  assumes "settled c" "holdsRange model_js (tracker c) v"
  defines "c' \<equiv> drain model_js (Suc (Suc n)) (onReading model_js v now c)"
  shows "settled c' \<and> holdsRange model_js (tracker c') v
     \<and> (loads c' = loads c
         \<or> (\<not> inSF (tracker c) \<and> inSF (tracker c')
             \<and> length (loads c') = Suc (length (loads c))))"
proof (cases "isPlayerReady c")
  case False
  then have "onReading model_js v now c = updateBackgroundColor c v"
    by (rule onReading_unready_eq)
  moreover have "pending (updateBackgroundColor c v) = []"
    using assms(1) by (simp add: updateBackgroundColor_eq settled_def)
  ultimately have "c' = updateBackgroundColor c v"
    unfolding c'_def by (simp add: drain_idle)
  with assms(1,2) show ?thesis
    by (simp add: updateBackgroundColor_eq settled_def)
next
  case True
  obtain t' res where u: "update model_js (tracker c) v now = (t', res)" by force
  from update_holdsRange [OF assms(2) u] show ?thesis
  proof (elim disjE conjE)
    assume stay: "u_range res = currentRange (tracker c)" "u_transition res = None"
      "\<not> falsy (u_range res)" "currentRange t' = currentRange (tracker c)"
      "inSF t' = inSF (tracker c)"
    have "onReading model_js v now c = (updateBackgroundColor c v)\<lparr>tracker := t'\<rparr>"
      using True u stay assms(1) by (intro onReading_noop) (simp_all add: settled_def)
    moreover have "pending ((updateBackgroundColor c v)\<lparr>tracker := t'\<rparr>) = []"
      using assms(1) by (simp add: updateBackgroundColor_eq settled_def)
    ultimately have c': "c' = (updateBackgroundColor c v)\<lparr>tracker := t'\<rparr>"
      unfolding c'_def by (simp add: drain_idle)
    have "holdsRange model_js t' v"
      using assms(2) stay by (simp add: holdsRange_def)
    with assms(1) stay show ?thesis
      by (simp add: c' updateBackgroundColor_eq settled_def)
  next
    assume esc: "res = \<lparr>u_range = Some ''SF'', u_transition = None\<rparr>"
      "currentRange (tracker c) = Some ''S3''" "classify model_js v = Some ''S3''"
      "\<not> inSF (tracker c)" "inSF t'" "currentRange t' = Some ''SF''"
    have prev: "previousRange c = Some ''S3''" "pending c = []"
      using assms(1) esc by (simp_all add: settled_def)
    note o = onReading_escalate [OF True u [unfolded esc(1)] prev(1)]
    have pend: "pending (onReading model_js v now c) =
        [\<lparr>sequenceId = Suc (sequenceCounter c), nextRange = Some ''SF'',
          path = [Some ''S3'', Some ''SF''], waiting = SeqAwaitSteady\<rparr>]"
      by (simp add: o prev)
    from drain_steady [OF pend, of model_js n]
    have "c' = (onReading model_js v now c)\<lparr>previousRange := Some ''SF'', pending := []\<rparr>"
      unfolding c'_def by simp
    then have c': "c' = (updateBackgroundColor c v)
       \<lparr>tracker := t',
        sequenceCounter := Suc (sequenceCounter c),
        loads := loads c @
          [\<lparr>src = ''./media/state_final.json'', autoplay = True, loop = True, mode = forward\<rparr>],
        previousRange := Some ''SF'', pending := []\<rparr>"
      by (simp add: o)
    show ?thesis
      using esc by (simp add: c' settled_def holdsRange_def updateBackgroundColor_eq)
  qed
qed

lemma onReading_fast_path:
  assumes "u_range (snd (update cfg (tracker c) v now)) = previousRange c"
    and "u_transition (snd (update cfg (tracker c) v now)) = None"
  shows "loads (onReading cfg v now c) = loads c
     \<and> sequenceCounter (onReading cfg v now c) = sequenceCounter c
     \<and> pending (onReading cfg v now c) = pending c
     \<and> previousRange (onReading cfg v now c) = previousRange c"
proof -
  obtain t' res where u: "update cfg (tracker c) v now = (t', res)" by force
  with assms have r: "u_range res = previousRange c" "u_transition res = None" by simp_all
  show ?thesis
    using u r by (simp add: onReading_def isPlayerReady_def updateBackgroundColor_eq Let_def)
qed

lemmas eval_defs =
  run_def onReading_def resume_def resumeTask_def resumeSequence_def suspend_def
  updateBackgroundColor_def
  playTransitionSequence_def playSteady_def loadClip_def isPlayerReady_def pathAt_def
  controller_def animationState_def update_def classify_def buildRangePath_def
  resolveTransition_def getRangeDirection_def getStateConfig_def indexOf_def falsy_def elemAt_def
  model_ranges_def model_files_state_def model_files_transition_def
  SF_TIMEOUT_MS_def DEFAULT_TRANSITION_DURATION_def
  getBackgroundColor_def COLOR_KEYFRAMES_def hexToRgb_def parseHexPair_def hexDigit_def
  rgbToHex_def toHex_def toString16_def Math_round_def interpolateColor_def lerp_def
  digitChar_def Let_def seqLoop.simps pathLoop.simps

lemma settled_S1_eval:
  "settled_S1 =
    \<lparr>previousRange = Some ''S1'', sequenceCounter = 0,
     tracker = \<lparr>currentRange = Some ''S1'', inSF = False, s3EnteredAt = None\<rparr>,
     playerReady = True, loads = [], hasBody = True,
     backgroundColor = Some ''#a4f12c'', pending = []\<rparr>"
  unfolding settled_S1_def by (simp add: eval_defs)

lemma settled_S3_eval:
  "settled_S3 =
    \<lparr>previousRange = Some ''S3'', sequenceCounter = 2,
     tracker = \<lparr>currentRange = Some ''S3'', inSF = False, s3EnteredAt = Some 2\<rparr>,
     playerReady = True,
     loads =
       [\<lparr>src = ''./media/transition_1_2.json'', autoplay = True, loop = False, mode = forward\<rparr>,
        \<lparr>src = ''./media/state_2.json'', autoplay = True, loop = True, mode = forward\<rparr>,
        \<lparr>src = ''./media/transition_2_3.json'', autoplay = True, loop = False, mode = forward\<rparr>,
        \<lparr>src = ''./media/state_3.json'', autoplay = True, loop = True, mode = forward\<rparr>],
     hasBody = True, backgroundColor = Some ''#ef8e2e'', pending = []\<rparr>"
  unfolding settled_S3_def by (simp add: eval_defs)

text \<open>
  Claim C6 as stated fails. From the settled session that shows \<open>S1\<close>, two calls
  with the value 80, the first run to its end before the second, issue two loads. From
  the settled session that shows \<open>S3\<close>, two calls with the value 95 after the timeout,
  the second made while the first is suspended, issue two loads as well.
\<close>

theorem steady_state_idempotent_counterexample:
  "settled settled_S1
   \<and> \<not> length (loads (run model_js settled_S1
          [Reading (JNum (Finite 80)) 1, Resume 0, Resume 0, Resume 0,
           Reading (JNum (Finite 80)) 2])) \<le> length (loads settled_S1) + 1
   \<and> settled settled_S3
   \<and> \<not> length (loads (run model_js settled_S3
          [Reading (JNum (Finite 95)) 10002, Reading (JNum (Finite 95)) 10003]))
        \<le> length (loads settled_S3) + 1"
proof -
  have "length (loads (run model_js settled_S1
          [Reading (JNum (Finite 80)) 1, Resume 0, Resume 0, Resume 0,
           Reading (JNum (Finite 80)) 2])) = 2"
    unfolding settled_S1_eval by (simp add: eval_defs)
  moreover have "length (loads (run model_js settled_S3
          [Reading (JNum (Finite 95)) 10002, Reading (JNum (Finite 95)) 10003])) = 6"
    unfolding settled_S3_eval by (simp add: eval_defs)
  moreover have "settled settled_S1" "length (loads settled_S1) = 0"
    "settled settled_S3" "length (loads settled_S3) = 4"
    by (simp_all add: settled_S1_eval settled_S3_eval settled_def)
  ultimately show ?thesis by simp
qed

text \<open>
  Claim C6, amended. Let the controller have settled, and let the value ask for no
  change of range: outside the final state it is classified into the tracker's
  current range, in the final state it is not classified \<open>S2\<close>. Then two calls of
  \<^verbatim>\<open>onReading\<close> with that value, each run to its end before anything else happens,
  leave no call suspended and issue at most one load in total. Moreover, whatever the
  state and the tables, a call for which the tracker returns \<open>previousRange\<close> and no
  plan issues no load, leaves the sequence counter as it is and suspends nothing.
\<close>

theorem steady_state_idempotent:
  assumes "settled c" and "holdsRange model_js (tracker c) v" and "2 \<le> n"
  shows "pending (drain model_js n (onReading model_js v t1 c)) = []
     \<and> pending (drain model_js n (onReading model_js v t2
          (drain model_js n (onReading model_js v t1 c)))) = []
     \<and> length (loads (drain model_js n (onReading model_js v t2
          (drain model_js n (onReading model_js v t1 c))))) \<le> length (loads c) + 1
     \<and> (u_range (snd (update cfg (tracker c') v' now)) = previousRange c'
          \<and> u_transition (snd (update cfg (tracker c') v' now)) = None \<longrightarrow>
          loads (onReading cfg v' now c') = loads c'
          \<and> sequenceCounter (onReading cfg v' now c') = sequenceCounter c'
          \<and> pending (onReading cfg v' now c') = pending c')"
proof -
  from assms(3) obtain m where n: "n = Suc (Suc m)"
    by (metis Suc_le_D numeral_2_eq_2 Suc_le_mono)
  define c1 where "c1 = drain model_js n (onReading model_js v t1 c)"
  define c2 where "c2 = drain model_js n (onReading model_js v t2 c1)"
  have s1: "settled c1" "holdsRange model_js (tracker c1) v"
    "loads c1 = loads c \<or> (inSF (tracker c1) \<and> length (loads c1) = Suc (length (loads c)))"
    using settle_step [OF assms(1,2), of m t1] unfolding c1_def n by blast+
  have s2: "settled c2"
    "loads c2 = loads c1 \<or> (\<not> inSF (tracker c1) \<and> length (loads c2) = Suc (length (loads c1)))"
    using settle_step [OF s1(1,2), of m t2] unfolding c2_def n by blast+
  have "length (loads c2) \<le> length (loads c) + 1"
    using s1(3) s2(2) by auto
  moreover have "pending c1 = []" "pending c2 = []"
    using s1(1) s2(1) by (simp_all add: settled_def)
  ultimately show ?thesis
    using onReading_fast_path [of cfg c' v' now]
    unfolding c1_def [symmetric] c2_def [symmetric] by blast
qed

theorem steady_state_idempotent_witness:
  "length (loads (drain model_js 2 (onReading model_js (JNum (Finite 95)) 10003
      (drain model_js 2 (onReading model_js (JNum (Finite 95)) 10002 settled_S3)))))
     \<le> length (loads settled_S3) + 1
   \<and> pending (drain model_js 2 (onReading model_js (JNum (Finite 95)) 10003
      (drain model_js 2 (onReading model_js (JNum (Finite 95)) 10002 settled_S3)))) = []"
proof -
  have h1: "settled settled_S3" by (simp add: settled_S3_eval settled_def)
  have h2: "holdsRange model_js (tracker settled_S3) (JNum (Finite 95))"
    by (simp add: settled_S3_eval holdsRange_def classify_model)
  from steady_state_idempotent [OF h1 h2 order_refl, of 10002 10003]
  show ?thesis by blast
qed

text \<open>A call whose token is no longer the latest issues no load when it is resumed.\<close>

lemma seqLoop_stale:
  "sequenceId' \<noteq> sequenceCounter c \<Longrightarrow> fst (seqLoop cfg p sequenceId' i c) = c"
  by (subst seqLoop.simps) (simp add: playSteady_def)

lemma seqLoop_stale_eq:
  "sequenceId' \<noteq> sequenceCounter c \<Longrightarrow> seqLoop cfg p sequenceId' i c = (c', k) \<Longrightarrow> c' = c"
  by (metis seqLoop_stale fst_conv)

lemma resumeTask_stale_loads:
  "sequenceId t \<noteq> sequenceCounter c \<Longrightarrow> loads (fst (resumeTask cfg t c)) = loads c"
  by (cases "waiting t")
    (auto simp: resumeTask_def resumeSequence_def playSteady_def
      split: prod.splits option.splits dest: seqLoop_stale_eq)

lemma resume_stale_loads:
  assumes "k < length (pending c)" "sequenceId (pending c ! k) \<noteq> sequenceCounter c"
  shows "loads (resume cfg k c) = loads c"
  using resumeTask_stale_loads [OF assms(2), of cfg] assms(1)
  by (auto simp: resume_def Let_def split: prod.splits option.splits)

text \<open>
  In the controller without the tracker no resumed call writes \<open>previousRange\<close>,
  and a call whose token is no longer the latest issues no load.
\<close>

lemma resumeSequence_previousRange:
  "previousRange (fst (resumeSequence cfg t c)) = previousRange c"
proof -
  have steady: "previousRange (playSteady cfg' c' r n) = previousRange c'" for cfg' c' r n
    by (simp add: playSteady_def loadClip_def split: option.splits)
  have loop: "previousRange (fst (seqLoop cfg p n i c)) = previousRange c" for p n i
  proof (induction cfg p n i c rule: seqLoop.induct)
    case (1 cfg p n i c)
    show ?case
      using "1.IH"
      by (subst seqLoop.simps) (auto simp: steady loadClip_def split: option.splits)
  qed
  show ?thesis
    by (cases "waiting t") (auto simp: resumeSequence_def loop)
qed

lemma resume_plain_previousRange: "previousRange (resume_plain cfg k c) = previousRange c"
  using resumeSequence_previousRange [of cfg "pending c ! k" c]
  by (cases "waiting (pending c ! k)")
    (auto simp: resume_plain_def resumeTask_plain_def Let_def split: prod.splits option.splits)

lemma resume_plain_stale_loads:
  assumes "k < length (pending c)" "sequenceId (pending c ! k) \<noteq> sequenceCounter c"
  shows "loads (resume_plain cfg k c) = loads c"
proof -
  have "loads (fst (resumeTask_plain cfg (pending c ! k) c)) = loads c"
    using assms(2)
    by (cases "waiting (pending c ! k)")
      (auto simp: resumeTask_plain_def resumeSequence_def
        split: prod.splits option.splits dest: seqLoop_stale_eq)
  then show ?thesis
    using assms(1) by (auto simp: resume_plain_def Let_def split: prod.splits option.splits)
qed

text \<open>
  Claim C1 on \<^verbatim>\<open>controller.js\<close>. A fresh page reads 80 and then 60 before the first
  load has finished. The first call holds token 1 and waits for its transition clip;
  the second call takes token 2. When the first call is resumed, twice, it issues no
  load, but it sets \<open>previousRange\<close> to its own range \<open>S2\<close>. When instead the second
  call runs to its end first and the first call is resumed after it, the session ends
  with nothing suspended, the steady clip of \<open>S1\<close> as the last load, the tracker in
  \<open>S1\<close>, and \<open>previousRange\<close> equal to \<open>S2\<close>.
\<close>

theorem stale_sequence_advances_previousRange:
  "map sequenceId (pending (run model_js (controller model_js True True)
       [Reading (JNum (Finite 80)) 0, Reading (JNum (Finite 60)) 1])) = [1, 2]
   \<and> sequenceCounter (run model_js (controller model_js True True)
       [Reading (JNum (Finite 80)) 0, Reading (JNum (Finite 60)) 1]) = 2
   \<and> previousRange (run model_js (controller model_js True True)
       [Reading (JNum (Finite 80)) 0, Reading (JNum (Finite 60)) 1]) = Some ''S1''
   \<and> loads (run model_js (controller model_js True True)
       [Reading (JNum (Finite 80)) 0, Reading (JNum (Finite 60)) 1, Resume 0, Resume 0]) =
     loads (run model_js (controller model_js True True)
       [Reading (JNum (Finite 80)) 0, Reading (JNum (Finite 60)) 1])
   \<and> previousRange (run model_js (controller model_js True True)
       [Reading (JNum (Finite 80)) 0, Reading (JNum (Finite 60)) 1, Resume 0, Resume 0]) =
     Some ''S2''
   \<and> pending (run model_js (controller model_js True True)
       [Reading (JNum (Finite 80)) 0, Reading (JNum (Finite 60)) 1,
        Resume 1, Resume 1, Resume 1, Resume 0, Resume 0]) = []
   \<and> map src (loads (run model_js (controller model_js True True)
       [Reading (JNum (Finite 80)) 0, Reading (JNum (Finite 60)) 1,
        Resume 1, Resume 1, Resume 1, Resume 0, Resume 0])) =
     [''./media/transition_1_2.json'', ''./media/transition_1_2.json'', ''./media/state_1.json'']
   \<and> currentRange (tracker (run model_js (controller model_js True True)
       [Reading (JNum (Finite 80)) 0, Reading (JNum (Finite 60)) 1,
        Resume 1, Resume 1, Resume 1, Resume 0, Resume 0])) = Some ''S1''
   \<and> previousRange (run model_js (controller model_js True True)
       [Reading (JNum (Finite 80)) 0, Reading (JNum (Finite 60)) 1,
        Resume 1, Resume 1, Resume 1, Resume 0, Resume 0]) = Some ''S2''"
proof -
  define c where "c = run model_js (controller model_js True True)
       [Reading (JNum (Finite 80)) 0, Reading (JNum (Finite 60)) 1]"
  have c: "c =
    \<lparr>previousRange = Some ''S1'', sequenceCounter = 2,
     tracker = \<lparr>currentRange = Some ''S1'', inSF = False, s3EnteredAt = None\<rparr>,
     playerReady = True,
     loads =
       [\<lparr>src = ''./media/transition_1_2.json'', autoplay = True, loop = False, mode = forward\<rparr>,
        \<lparr>src = ''./media/transition_1_2.json'', autoplay = True, loop = False, mode = reverse\<rparr>],
     hasBody = True, backgroundColor = Some ''#a4f12c'',
     pending =
       [\<lparr>sequenceId = 1, nextRange = Some ''S2'', path = [Some ''S1'', Some ''S2''],
         waiting = SeqAwaitClip 0\<rparr>,
        \<lparr>sequenceId = 2, nextRange = Some ''S1'', path = [],
         waiting = AwaitTransitionClip\<rparr>]\<rparr>"
    unfolding c_def by (simp add: eval_defs)
  have split: "run model_js (controller model_js True True)
       (Reading (JNum (Finite 80)) 0 # Reading (JNum (Finite 60)) 1 # evs) = run model_js c evs"
    for evs
    by (simp add: c_def run_def)
  have stale: "run model_js c [Resume 0, Resume 0] =
      c\<lparr>previousRange := Some ''S2'', pending := [pending c ! 1]\<rparr>"
    unfolding c by (simp add: eval_defs)
  have final: "run model_js c [Resume 1, Resume 1, Resume 1, Resume 0, Resume 0] =
      c\<lparr>previousRange := Some ''S2'', pending := [],
        loads := loads c @
          [\<lparr>src = ''./media/state_1.json'', autoplay = True, loop = True, mode = forward\<rparr>]\<rparr>"
    unfolding c by (simp add: eval_defs)
  have r0: "run model_js (controller model_js True True)
       [Reading (JNum (Finite 80)) 0, Reading (JNum (Finite 60)) 1] = c"
    by (simp add: c_def)
  have r1: "run model_js (controller model_js True True)
       [Reading (JNum (Finite 80)) 0, Reading (JNum (Finite 60)) 1, Resume 0, Resume 0] =
      c\<lparr>previousRange := Some ''S2'', pending := [pending c ! 1]\<rparr>"
    using split [of "[Resume 0, Resume 0]"] stale by simp
  have r2: "run model_js (controller model_js True True)
       [Reading (JNum (Finite 80)) 0, Reading (JNum (Finite 60)) 1,
        Resume 1, Resume 1, Resume 1, Resume 0, Resume 0] =
      c\<lparr>previousRange := Some ''S2'', pending := [],
        loads := loads c @
          [\<lparr>src = ''./media/state_1.json'', autoplay = True, loop = True, mode = forward\<rparr>]\<rparr>"
    using split [of "[Resume 1, Resume 1, Resume 1, Resume 0, Resume 0]"] final by simp
  show ?thesis
    unfolding r0 r1 r2 by (simp add: c)
qed

end
